theory Spec2Isabelle
  imports Main "HOL-Library.Word"
begin

unbundle bit_operations_syntax

section \<open>The PCM driver for WS281x strips: data model\<close>

text \<open>
  The embedding follows \<^verbatim>\<open>src/lib/ws2811-pcm.c\<close>. C's \<^verbatim>\<open>uint32_t\<close> and \<^verbatim>\<open>int\<close> are 32-bit
  words (the target is a 32-bit ARM): \<open>+\<close> and \<open>*\<close> wrap, \<open>div\<close> is the unsigned
  division, \<open>drop_bit\<close> the logical shift right. A C \<^verbatim>\<open>int\<close> that is only compared or
  counted (loop bounds, return codes) is an \<open>int\<close>.
\<close>

type_synonym u8 = "8 word"
type_synonym u32 = "32 word"

text \<open>
  \<^verbatim>\<open>ws2811_channel_t\<close>, the fields this file reads: the LED count, the caller's
  pixel array, brightness, strip type (three shift amounts packed in one integer), the
  inversion flag and the GPIO pin number.
\<close>

record ws2811_channel =
  count :: int
  leds :: "u32 list"
  brightness :: u32
  strip_type :: u32
  invert :: int
  gpionum :: int

subsection \<open>Buffer sizing\<close>

definition LED_RESET_uS :: u32 where
  "LED_RESET_uS = 55"

text \<open>
  \<^verbatim>\<open>LED_BIT_COUNT(leds, freq)\<close>: \<^verbatim>\<open>leds\<close> is an \<^verbatim>\<open>int\<close> and \<^verbatim>\<open>freq\<close> a \<^verbatim>\<open>uint32_t\<close>,
  so the sum and everything after it is unsigned 32-bit arithmetic. The product
  \<^verbatim>\<open>leds * 3 * 8 * 3\<close> is taken in \<^verbatim>\<open>int\<close>; its two's-complement bits are those of the
  word product.
\<close>

definition LED_BIT_COUNT :: "u32 \<Rightarrow> u32 \<Rightarrow> u32" where
  "LED_BIT_COUNT nleds freq = (nleds * 3 * 8 * 3) + ((LED_RESET_uS * (freq * 3)) div 1000000)"

definition PCM_BYTE_COUNT :: "u32 \<Rightarrow> u32 \<Rightarrow> u32" where
  "PCM_BYTE_COUNT nleds freq = (((drop_bit 3 (LED_BIT_COUNT nleds freq)) AND NOT 7) + 4) + 4"

text \<open>The reset-latch bit count, the second summand of \<^verbatim>\<open>LED_BIT_COUNT\<close>, as a number.\<close>

definition reset_bits :: "u32 \<Rightarrow> nat" where
  "reset_bits freq = unat ((LED_RESET_uS * (freq * 3)) div 1000000)"

subsection \<open>The transmit buffer and the encoder\<close>

definition SYMBOL_HIGH :: u8 where
  "SYMBOL_HIGH = 6"

definition SYMBOL_LOW :: u8 where
  "SYMBOL_LOW = 4"

text \<open>
  The encoding loop of \<^verbatim>\<open>ws2811_render\<close> works on the memory at \<^verbatim>\<open>device->pcm_raw\<close>
  seen as an array of 32-bit words, with the locals \<^verbatim>\<open>wordpos\<close> and \<^verbatim>\<open>bitpos\<close>. The
  memory is a total function from word index to word, so that a store outside the sized
  buffer is visible as a store at that index. \<open>writes\<close> logs the index of every store.
  \<^verbatim>\<open>wordpos\<close> counts words of a buffer that fits a 32-bit address space, so it stays
  far below the range of its C \<^verbatim>\<open>int\<close> and is a natural number here.
\<close>

record encoder =
  buf :: "nat \<Rightarrow> u32"
  wordpos :: nat
  bitpos :: int
  writes :: "nat list"

text \<open>
  The body of the innermost loop (\<^verbatim>\<open>for (l = 2; l >= 0; l--)\<close>): clear the bit at
  \<^verbatim>\<open>bitpos\<close> of word \<^verbatim>\<open>wordpos\<close>, set it when bit \<^verbatim>\<open>l\<close> of the symbol is set, then step
  to the next lower bit, or to bit 31 of the next word.
\<close>

definition render_symbol_bit :: "u8 \<Rightarrow> nat \<Rightarrow> encoder \<Rightarrow> encoder" where
  "render_symbol_bit symbol l e =
     (let w1 = buf e (wordpos e) AND NOT (push_bit (nat (bitpos e)) 1);
          e1 = e\<lparr>buf := (buf e)(wordpos e := w1), writes := writes e @ [wordpos e]\<rparr>;
          e2 = (if symbol AND push_bit l 1 \<noteq> 0
                then e1\<lparr>buf := (buf e1)(wordpos e := w1 OR push_bit (nat (bitpos e)) 1),
                        writes := writes e1 @ [wordpos e]\<rparr>
                else e1);
          bp = bitpos e - 1
      in if bp < 0 then e2\<lparr>wordpos := wordpos e + 1, bitpos := 31\<rparr>
         else e2\<lparr>bitpos := bp\<rparr>)"

text \<open>The loop over the bits of one colour byte (\<^verbatim>\<open>for (k = 7; k >= 0; k--)\<close>).\<close>

definition render_color_bit :: "int \<Rightarrow> u8 \<Rightarrow> nat \<Rightarrow> encoder \<Rightarrow> encoder" where
  "render_color_bit invt c k e =
     (let symbol0 = (if invt \<noteq> 0 then SYMBOL_HIGH else SYMBOL_LOW);
          symbol = (if c AND push_bit k 1 \<noteq> 0
                    then (if invt \<noteq> 0 then SYMBOL_LOW else SYMBOL_HIGH)
                    else symbol0)
      in foldl (\<lambda>e l. render_symbol_bit symbol l e) e [2, 1, 0])"

definition render_color :: "int \<Rightarrow> u8 \<Rightarrow> encoder \<Rightarrow> encoder" where
  "render_color invt c e = foldl (\<lambda>e k. render_color_bit invt c k e) e [7, 6, 5, 4, 3, 2, 1, 0]"

text \<open>
  One entry of the \<^verbatim>\<open>color[]\<close> array: the channel byte selected by the shift, scaled
  by \<^verbatim>\<open>scale\<close> in unsigned 32-bit arithmetic, shifted right by 8, and looked up in
  \<^verbatim>\<open>ws281x_gamma\<close>. The table lives in \<^verbatim>\<open>gamma.h\<close>, which is not part of the sources
  at hand, so it is a parameter (index to byte). A shift amount of 32 or more, which C
  leaves undefined, reads as 0 here.
\<close>

definition scaled_channel :: "u32 \<Rightarrow> u32 \<Rightarrow> u32 \<Rightarrow> u32" where
  "scaled_channel led shift scale = drop_bit 8 (((drop_bit (unat shift) led) AND 0xff) * scale)"

definition led_colors :: "(nat \<Rightarrow> u8) \<Rightarrow> ws2811_channel \<Rightarrow> nat \<Rightarrow> u8 list" where
  "led_colors ws281x_gamma channel i =
     (let scale = (brightness channel AND 0xff) + 1;
          rshift = (drop_bit 16 (strip_type channel)) AND 0xff;
          gshift = (drop_bit 8 (strip_type channel)) AND 0xff;
          bshift = (drop_bit 0 (strip_type channel)) AND 0xff
      in [ws281x_gamma (unat (scaled_channel (leds channel ! i) rshift scale)),
          ws281x_gamma (unat (scaled_channel (leds channel ! i) gshift scale)),
          ws281x_gamma (unat (scaled_channel (leds channel ! i) bshift scale))])"

text \<open>The loop over the LEDs and, for each, over the three colours.\<close>

definition render_led :: "(nat \<Rightarrow> u8) \<Rightarrow> ws2811_channel \<Rightarrow> nat \<Rightarrow> encoder \<Rightarrow> encoder" where
  "render_led ws281x_gamma channel i e =
     (let color = led_colors ws281x_gamma channel i
      in foldl (\<lambda>e j. render_color (invert channel) (color ! j) e) e [0..<length color])"

definition render_leds :: "(nat \<Rightarrow> u8) \<Rightarrow> ws2811_channel \<Rightarrow> encoder \<Rightarrow> encoder" where
  "render_leds ws281x_gamma channel e =
     foldl (\<lambda>e i. render_led ws281x_gamma channel i e) e [0..<nat (count channel)]"

text \<open>The locals at the start of \<^verbatim>\<open>ws2811_render\<close>: \<^verbatim>\<open>wordpos = 0\<close>, \<^verbatim>\<open>bitpos = 31\<close>.\<close>

definition render_start :: "(nat \<Rightarrow> u32) \<Rightarrow> encoder" where
  "render_start m = \<lparr>buf = m, wordpos = 0, bitpos = 31, writes = []\<rparr>"

definition render_encode :: "(nat \<Rightarrow> u8) \<Rightarrow> ws2811_channel \<Rightarrow> (nat \<Rightarrow> u32) \<Rightarrow> encoder" where
  "render_encode ws281x_gamma channel m = render_leds ws281x_gamma channel (render_start m)"

text \<open>
  The buffer read as the serial bit stream the PCM block shifts out: bit \<open>p\<close> of the
  stream is bit \<open>31 - p mod 32\<close> of word \<open>p div 32\<close>.
\<close>

definition stream_bit :: "(nat \<Rightarrow> u32) \<Rightarrow> nat \<Rightarrow> bool" where
  "stream_bit m p = bit (m (p div 32)) (31 - p mod 32)"

subsection \<open>Zero-filling the buffer\<close>

text \<open>
  \<^verbatim>\<open>pcm_raw_init\<close>: \<^verbatim>\<open>wordcount\<close> is the byte count divided by \<^verbatim>\<open>sizeof(uint32_t)\<close>; the
  loop runs \<^verbatim>\<open>i\<close> from 0 to \<^verbatim>\<open>wordcount - 1\<close> and its body stores 0 at
  \<^verbatim>\<open>pcm_raw[wordcount]\<close>.
\<close>

definition pcm_raw_init :: "ws2811_channel \<Rightarrow> u32 \<Rightarrow> (nat \<Rightarrow> u32) \<Rightarrow> (nat \<Rightarrow> u32)" where
  "pcm_raw_init channel freq m =
     (let maxcount = count channel;
          wordcount = unat (PCM_BYTE_COUNT (word_of_int maxcount) freq div 4)
      in foldl (\<lambda>m i. m(wordcount := 0)) m [0..<wordcount])"

subsection \<open>The device, the DMA registers and the transfer\<close>

text \<open>
  What the program does to the outside, in order: stores into the transmit buffer, reads
  and writes of the memory-mapped registers, delays, and the message on \<^verbatim>\<open>stderr\<close>.
\<close>

datatype event =
    Buf_write nat
  | Dma_cs_read u32
  | Usleep nat
  | Stderr_DMA_Error u32
  | Dma_cs_write u32
  | Dma_conblk_ad_write u32
  | Dma_debug_write u32
  | Pcm_cs_read u32
  | Pcm_cs_write u32

fun is_buf_write :: "event \<Rightarrow> bool" where
  "is_buf_write (Buf_write w) = True"
| "is_buf_write ev = False"

fun is_cs_read :: "event \<Rightarrow> bool" where
  "is_cs_read (Dma_cs_read v) = True"
| "is_cs_read ev = False"

text \<open>
  The part of \<^verbatim>\<open>ws2811_device_t\<close> the transfer uses: the buffer memory and the cached bus
  address of the control block; with it the number of reads of \<^verbatim>\<open>dma->cs\<close> made so far
  and the log of events.
\<close>

record ws2811_device =
  pcm_raw :: "nat \<Rightarrow> u32"
  dma_cb_addr :: u32
  cs_reads :: nat
  trace :: "event list"

text \<open>
  The registers are \<^verbatim>\<open>volatile\<close>: every evaluation of \<^verbatim>\<open>dma->cs\<close> is a read of its
  own, and the hardware may change the value between two reads. \<open>dma_cs hw n\<close> is the value
  the \<open>n\<close>-th read returns; \<open>dma_debug\<close> and \<open>pcm_cs\<close> are the values read from
  \<^verbatim>\<open>dma->debug\<close> and \<^verbatim>\<open>pcm->cs\<close>.
\<close>

record hw =
  dma_cs :: "nat \<Rightarrow> u32"
  dma_debug :: u32
  pcm_cs :: u32

text \<open>
  The bit masks of \<^verbatim>\<open>dma.h\<close> and \<^verbatim>\<open>pcm.h\<close>, headers that are not part of the sources at
  hand: they are parameters of the functions that use them.
\<close>

record reg_consts =
  RPI_DMA_CS_RESET :: u32
  RPI_DMA_CS_INT :: u32
  RPI_DMA_CS_END :: u32
  RPI_DMA_CS_WAIT_OUTSTANDING_WRITES :: u32
  RPI_DMA_CS_PANIC_PRIORITY :: "u32 \<Rightarrow> u32"
  RPI_DMA_CS_PRIORITY :: "u32 \<Rightarrow> u32"
  RPI_DMA_CS_ACTIVE :: u32
  RPI_DMA_CS_ERROR :: u32
  RPI_PCM_CS_TXON :: u32

definition read_dma_cs :: "hw \<Rightarrow> ws2811_device \<Rightarrow> u32 \<times> ws2811_device" where
  "read_dma_cs h d =
     (dma_cs h (cs_reads d),
      d\<lparr>cs_reads := cs_reads d + 1, trace := trace d @ [Dma_cs_read (dma_cs h (cs_reads d))]\<rparr>)"

definition usleep :: "nat \<Rightarrow> ws2811_device \<Rightarrow> ws2811_device" where
  "usleep n d = d\<lparr>trace := trace d @ [Usleep n]\<rparr>"

text \<open>
  The polling loop of \<^verbatim>\<open>ws2811_wait\<close>. The condition reads \<^verbatim>\<open>dma->cs\<close> for the active
  bit and, only when that is set, once more for the error bit. The loop need not end:
  \<open>None\<close> is a wait that never returns.
\<close>

partial_function (option) wait_loop :: "reg_consts \<Rightarrow> hw \<Rightarrow> ws2811_device \<Rightarrow> ws2811_device option" where
  "wait_loop K h d =
     (case read_dma_cs h d of (v1, d1) \<Rightarrow>
        if v1 AND RPI_DMA_CS_ACTIVE K \<noteq> 0
        then (case read_dma_cs h d1 of (v2, d2) \<Rightarrow>
                if \<not> (v2 AND RPI_DMA_CS_ERROR K \<noteq> 0)
                then wait_loop K h (usleep 10 d2)
                else Some d2)
        else Some d1)"

text \<open>
  \<^verbatim>\<open>ws2811_wait\<close>: after the loop, one more read of \<^verbatim>\<open>dma->cs\<close>; with the error bit set
  the debug register is printed and the result is -1, otherwise 0.
\<close>

definition ws2811_wait :: "reg_consts \<Rightarrow> hw \<Rightarrow> ws2811_device \<Rightarrow> (int \<times> ws2811_device) option" where
  "ws2811_wait K h d =
     (case wait_loop K h d of
        None \<Rightarrow> None
      | Some d1 \<Rightarrow>
          (case read_dma_cs h d1 of (v, d2) \<Rightarrow>
             if v AND RPI_DMA_CS_ERROR K \<noteq> 0
             then Some (- 1, d2\<lparr>trace := trace d2 @ [Stderr_DMA_Error (dma_debug h)]\<rparr>)
             else Some (0, d2)))"

definition dma_start_events :: "reg_consts \<Rightarrow> hw \<Rightarrow> ws2811_device \<Rightarrow> event list" where
  "dma_start_events K h d =
     [Dma_cs_write (RPI_DMA_CS_RESET K),
      Usleep 10,
      Dma_cs_write (RPI_DMA_CS_INT K OR RPI_DMA_CS_END K),
      Usleep 10,
      Dma_conblk_ad_write (dma_cb_addr d),
      Dma_debug_write 7,
      Dma_cs_write (RPI_DMA_CS_WAIT_OUTSTANDING_WRITES K OR RPI_DMA_CS_PANIC_PRIORITY K 15 OR
                    RPI_DMA_CS_PRIORITY K 15 OR RPI_DMA_CS_ACTIVE K),
      Pcm_cs_read (pcm_cs h),
      Pcm_cs_write (pcm_cs h OR RPI_PCM_CS_TXON K)]"

definition dma_start :: "reg_consts \<Rightarrow> hw \<Rightarrow> ws2811_device \<Rightarrow> ws2811_device" where
  "dma_start K h d = d\<lparr>trace := trace d @ dma_start_events K h d\<rparr>"

text \<open>
  \<^verbatim>\<open>ws2811_render\<close>: the encoding loop on the buffer, then \<^verbatim>\<open>ws2811_wait\<close>, then, unless
  the wait failed, \<^verbatim>\<open>dma_start\<close>.
\<close>

definition ws2811_render ::
  "reg_consts \<Rightarrow> hw \<Rightarrow> (nat \<Rightarrow> u8) \<Rightarrow> ws2811_channel \<Rightarrow> ws2811_device \<Rightarrow> (int \<times> ws2811_device) option" where
  "ws2811_render K h ws281x_gamma channel d =
     (let e = render_encode ws281x_gamma channel (pcm_raw d);
          d1 = d\<lparr>pcm_raw := buf e, trace := trace d @ map Buf_write (writes e)\<rparr>
      in case ws2811_wait K h d1 of
           None \<Rightarrow> None
         | Some (r, d2) \<Rightarrow> if r \<noteq> 0 then Some (- 1, d2) else Some (0, dma_start K h d2))"

subsection \<open>Initialisation and teardown\<close>

text \<open>
  What \<^verbatim>\<open>ws2811_init\<close> acquires from its collaborators: the device structure and the LED
  array (\<^verbatim>\<open>malloc\<close>), the mailbox handle (\<^verbatim>\<open>mbox_open\<close>), the VideoCore memory and its
  lock (\<^verbatim>\<open>mem_alloc\<close>, \<^verbatim>\<open>mem_lock\<close>, named by the memory reference the call is given),
  the mapping of the buffer and the four register windows (\<^verbatim>\<open>mapmem\<close>). \<open>calls\<close> logs
  every acquisition and every release call, in order.
\<close>

datatype resource =
    Device_struct
  | Leds_array
  | Mbox_handle int
  | Vc_mem u32
  | Vc_lock u32
  | Buf_map
  | Win_dma
  | Win_pcm
  | Win_gpio
  | Win_cm_pcm

datatype call = Acquire resource | Release resource

text \<open>The resources acquired and not released since, after a sequence of calls.\<close>

definition held :: "call list \<Rightarrow> resource list" where
  "held cs = foldl (\<lambda>hs c. case c of Acquire r \<Rightarrow> hs @ [r] | Release r \<Rightarrow> remove1 r hs) [] cs"

text \<open>
  The results of the collaborators, which live in files that are not part of the sources
  at hand (\<^verbatim>\<open>rpihw.c\<close>, \<^verbatim>\<open>mailbox.c\<close>, \<^verbatim>\<open>dma.c\<close>, \<^verbatim>\<open>pcm.c\<close>, the C library), and two
  constants of their headers. A pointer result is \<open>True\<close> when it is not \<^verbatim>\<open>NULL\<close>.
\<close>

record init_env =
  rpi_hw_detect :: "u32 option"
  malloc_device :: bool
  mbox_open :: int
  mem_alloc :: u32
  mem_lock :: u32
  mapmem_buf :: bool
  malloc_leds :: bool
  dmanum_to_offset :: u32
  mapmem_dma :: bool
  mapmem_pcm :: bool
  mapmem_gpio :: bool
  mapmem_cm_pcm :: bool
  pcm_pin_alt :: int
  PAGE_SIZE :: u32
  sizeof_dma_cb_t :: u32

text \<open>
  The fields of \<^verbatim>\<open>ws2811_t\<close>, \<^verbatim>\<open>ws2811_device_t\<close> and \<^verbatim>\<open>videocore_mbox_t\<close> that
  initialisation and teardown test: pointers as \<open>non-NULL\<close> flags, the mailbox record, and
  the memory of the transmit buffer. The register pointers of a fresh device structure are
  not initialised by the code; nothing reads them before \<^verbatim>\<open>map_registers\<close> has set them.
\<close>

record init_state =
  device :: bool
  channel_leds :: bool
  mbox_handle :: int
  mbox_mem_ref :: u32
  mbox_bus_addr :: u32
  mbox_size :: u32
  mbox_virt_addr :: bool
  device_dma :: bool
  device_pcm :: bool
  device_gpio :: bool
  device_cm_pcm :: bool
  device_pcm_raw :: "nat \<Rightarrow> u32"
  calls :: "call list"

text \<open>
  A call either returns or ends in a fault of the process: a load or store through a
  \<^verbatim>\<open>NULL\<close> pointer, after which nothing is returned and nothing more is done.
\<close>

datatype 'a outcome = Returned 'a | Segfault

definition acquire :: "resource \<Rightarrow> init_state \<Rightarrow> init_state" where
  "acquire r s = s\<lparr>calls := calls s @ [Acquire r]\<rparr>"

definition release :: "resource \<Rightarrow> init_state \<Rightarrow> init_state" where
  "release r s = s\<lparr>calls := calls s @ [Release r]\<rparr>"

text \<open>\<^verbatim>\<open>map_registers\<close>: four mappings in turn, each failure an immediate \<^verbatim>\<open>return -1\<close>.\<close>

definition map_registers :: "init_env \<Rightarrow> init_state \<Rightarrow> int \<times> init_state" where
  "map_registers env s =
     (if dmanum_to_offset env = 0 then (- 1, s)
      else let s1 = s\<lparr>device_dma := mapmem_dma env\<rparr> in
        if \<not> device_dma s1 then (- 1, s1)
        else let s2 = (acquire Win_dma s1)\<lparr>device_pcm := mapmem_pcm env\<rparr> in
          if \<not> device_pcm s2 then (- 1, s2)
          else let s3 = (acquire Win_pcm s2)\<lparr>device_gpio := mapmem_gpio env\<rparr> in
            if \<not> device_gpio s3 then (- 1, s3)
            else let s4 = (acquire Win_gpio s3)\<lparr>device_cm_pcm := mapmem_cm_pcm env\<rparr> in
              if \<not> device_cm_pcm s4 then (- 1, s4)
              else (0, acquire Win_cm_pcm s4))"

definition unmap_registers :: "init_state \<Rightarrow> init_state" where
  "unmap_registers s =
     (let s1 = (if device_dma s then release Win_dma s else s);
          s2 = (if device_pcm s1 then release Win_pcm s1 else s1);
          s3 = (if device_cm_pcm s2 then release Win_cm_pcm s2 else s2);
          s4 = (if device_gpio s3 then release Win_gpio s3 else s3)
      in s4)"

text \<open>
  \<^verbatim>\<open>gpio_init\<close>: for a pin number other than 0 the alternate function is looked up; a
  negative result is the failure. The write of the function-select register is not
  modelled.
\<close>

definition gpio_init :: "init_env \<Rightarrow> ws2811_channel \<Rightarrow> int" where
  "gpio_init env channel =
     (let pinnum = gpionum channel in
      if pinnum \<noteq> 0 then (let altnum = pcm_pin_alt env in if altnum < 0 then - 1 else 0)
      else 0)"

text \<open>
  \<^verbatim>\<open>setup_pcm\<close> programs the clock, the PCM block and the control block and returns 0 on
  every path; only the result is modelled.
\<close>

definition setup_pcm :: int where
  "setup_pcm = 0"

text \<open>
  \<^verbatim>\<open>ws2811_cleanup\<close>: the LED array is freed when there is one; then
  \<^verbatim>\<open>device->mbox.handle\<close> is read, before the test of \<^verbatim>\<open>device\<close> itself, which is the
  fault when there is no device structure; the four releases of the mailbox follow for a
  handle other than -1, and the device structure is freed last.
\<close>

definition ws2811_cleanup :: "init_state \<Rightarrow> init_state outcome" where
  "ws2811_cleanup s =
     (let s1 = (if channel_leds s then release Leds_array s else s);
          s2 = s1\<lparr>channel_leds := False\<rparr>
      in
      if \<not> device s2 then Segfault
      else
        let s3 = (if mbox_handle s2 \<noteq> - 1
                  then (release (Mbox_handle (mbox_handle s2))
                         (release (Vc_mem (mbox_mem_ref s2))
                           (release (Vc_lock (mbox_mem_ref s2))
                             (release Buf_map s2))))\<lparr>mbox_handle := - 1\<rparr>
                  else s2);
            s4 = (if device s3 then release Device_struct s3 else s3)
        in Returned (s4\<lparr>device := False\<rparr>))"

text \<open>The label \<^verbatim>\<open>err\<close> of \<^verbatim>\<open>ws2811_init\<close>: \<^verbatim>\<open>ws2811_cleanup\<close>, then \<^verbatim>\<open>return -1\<close>.\<close>

definition err :: "init_state \<Rightarrow> (int \<times> init_state) outcome" where
  "err s = (case ws2811_cleanup s of Segfault \<Rightarrow> Segfault | Returned s' \<Rightarrow> Returned (- 1, s'))"

text \<open>
  \<^verbatim>\<open>ws2811_init\<close>, on the memory \<open>m\<close> that the mapping of the buffer shows. The first five
  failure exits are plain \<^verbatim>\<open>return -1\<close> statements; the later ones go to the label
  \<^verbatim>\<open>err\<close>. The result of mapping the buffer is not tested by the code: with a \<^verbatim>\<open>NULL\<close>
  result, \<^verbatim>\<open>pcm_raw_init\<close> and the clearing of the control block store through pointers
  made from \<^verbatim>\<open>NULL\<close>, which is the fault. The contents of the LED array, the default of
  the strip type, the control block and the bus addresses are left out: nothing below
  depends on them.
\<close>

definition ws2811_init ::
  "init_env \<Rightarrow> ws2811_channel \<Rightarrow> u32 \<Rightarrow> (nat \<Rightarrow> u32) \<Rightarrow> init_state
     \<Rightarrow> (int \<times> init_state) outcome" where
  "ws2811_init env channel freq m s0 =
     (if rpi_hw_detect env = None then Returned (- 1, s0)
      else let s1 = s0\<lparr>device := malloc_device env\<rparr> in
        if \<not> device s1 then Returned (- 1, s1)
        else
          let s2 = acquire Device_struct s1;
              size0 = PCM_BYTE_COUNT (word_of_int (count channel)) freq + sizeof_dma_cb_t env;
              s3 = s2\<lparr>mbox_size := (size0 + (PAGE_SIZE env - 1)) AND NOT (PAGE_SIZE env - 1)\<rparr>;
              s4 = s3\<lparr>mbox_handle := mbox_open env\<rparr>
          in
          if mbox_handle s4 = - 1 then Returned (- 1, s4)
          else
            let s5 = (acquire (Mbox_handle (mbox_handle s4)) s4)\<lparr>mbox_mem_ref := mem_alloc env\<rparr> in
            if mbox_mem_ref s5 = 0 then Returned (- 1, s5)
            else
              let s6 = (acquire (Vc_mem (mbox_mem_ref s5)) s5)\<lparr>mbox_bus_addr := mem_lock env\<rparr> in
              if mbox_bus_addr s6 = - 1 then Returned (- 1, release (Vc_mem (mbox_size s6)) s6)
              else
                let s7 = acquire (Vc_lock (mbox_mem_ref s6)) s6;
                    s8 = (if mapmem_buf env then acquire Buf_map s7 else s7)
                           \<lparr>mbox_virt_addr := mapmem_buf env\<rparr>;
                    s9 = s8\<lparr>channel_leds := malloc_leds env\<rparr>
                in
                if \<not> channel_leds s9 then err s9
                else
                  let s10 = acquire Leds_array s9 in
                  if \<not> mbox_virt_addr s10 then Segfault
                  else
                    let s11 = s10\<lparr>device_pcm_raw := pcm_raw_init channel freq m\<rparr> in
                    case map_registers env s11 of (r, s12) \<Rightarrow>
                      if r \<noteq> 0 then err s12
                      else if gpio_init env channel \<noteq> 0
                        then err (unmap_registers s12)
                      else if setup_pcm \<noteq> 0
                        then err (unmap_registers s12)
                      else Returned (0, s12))"

subsection \<open>Notions used in the statements\<close>

text \<open>
  The invariant of the encoder's locals, the position of the next bit in the stream, and
  the summary of a piece of the encoding loop: started at \<open>e\<close> it ends at \<open>e'\<close>, has put
  the bits \<open>bs\<close> at the next positions of the stream, has left every other bit as it
  was, and has stored into exactly the words those positions lie in.
\<close>

definition enc_ok :: "encoder \<Rightarrow> bool" where
  "enc_ok e \<longleftrightarrow> 0 \<le> bitpos e \<and> bitpos e \<le> 31"

definition enc_pos :: "encoder \<Rightarrow> nat" where
  "enc_pos e = 32 * wordpos e + (31 - nat (bitpos e))"

definition emits :: "encoder \<Rightarrow> bool list \<Rightarrow> encoder \<Rightarrow> bool" where
  "emits e bs e' \<longleftrightarrow>
     enc_ok e' \<and> enc_pos e' = enc_pos e + length bs
     \<and> (\<forall>p. stream_bit (buf e') p =
            (if enc_pos e \<le> p \<and> p < enc_pos e + length bs then bs ! (p - enc_pos e)
             else stream_bit (buf e) p))
     \<and> set (writes e') = set (writes e) \<union> (\<lambda>p. p div 32) ` {enc_pos e ..< enc_pos e + length bs}"

text \<open>
  The bit stream of a frame as the protocol describes it: a logical one is the pulse
  \<open>110\<close>, a logical zero \<open>100\<close>; colour bytes go out most significant bit first, three
  colours per LED, LEDs in index order.
\<close>

definition symbol_pattern :: "bool \<Rightarrow> bool list" where
  "symbol_pattern one = (if one then [True, True, False] else [True, False, False])"

definition color_pattern :: "int \<Rightarrow> u8 \<Rightarrow> bool list" where
  "color_pattern invt c =
     concat (map (\<lambda>k. symbol_pattern (bit c k \<noteq> (invt \<noteq> 0))) [7, 6, 5, 4, 3, 2, 1, 0])"

definition led_pattern :: "(nat \<Rightarrow> u8) \<Rightarrow> ws2811_channel \<Rightarrow> nat \<Rightarrow> bool list" where
  "led_pattern ws281x_gamma channel i =
     concat (map (\<lambda>j. color_pattern (invert channel) (led_colors ws281x_gamma channel i ! j)) [0..<3])"

definition frame_pattern :: "(nat \<Rightarrow> u8) \<Rightarrow> ws2811_channel \<Rightarrow> bool list" where
  "frame_pattern ws281x_gamma channel =
     concat (map (led_pattern ws281x_gamma channel) [0..<nat (count channel)])"

text \<open>
  The colour bytes of a pixel in the words of the protocol description, on numbers: the
  three shift amounts are bytes 2, 1 and 0 of the strip type; a channel value is the byte
  of the packed pixel at its shift; it is scaled to \<open>(v * (brightness + 1)) div 256\<close> with
  the caller's brightness 0 to 255, and the result indexes the gamma table.
\<close>

definition spec_channel_byte :: "u32 \<Rightarrow> nat \<Rightarrow> nat" where
  "spec_channel_byte pixel shift = (unat pixel div 2 ^ shift) mod 256"

definition spec_scaled :: "nat \<Rightarrow> nat \<Rightarrow> nat" where
  "spec_scaled v b = (v * (b + 1)) div 256"

definition spec_shifts :: "ws2811_channel \<Rightarrow> nat list" where
  "spec_shifts channel =
     [(unat (strip_type channel) div 2 ^ 16) mod 256,
      (unat (strip_type channel) div 2 ^ 8) mod 256,
      unat (strip_type channel) mod 256]"

definition spec_colors :: "(nat \<Rightarrow> u8) \<Rightarrow> ws2811_channel \<Rightarrow> nat \<Rightarrow> u8 list" where
  "spec_colors ws281x_gamma channel i =
     map (\<lambda>shift. ws281x_gamma (spec_scaled (spec_channel_byte (leds channel ! i) shift)
                                    (unat (brightness channel) mod 256)))
       (spec_shifts channel)"

text \<open>
  The events of a completion wait on the DMA channel: rounds of two reads of \<^verbatim>\<open>dma->cs\<close>,
  the first showing the active bit set and the second the error bit clear, each round
  followed by a delay of 10 microseconds; the wait ends with a read that shows the active
  bit clear, or with a read that shows it set and a next one that shows the error bit set.
  Nothing else is a completion wait; the empty sequence in particular is none.
\<close>

fun wait_polls :: "reg_consts \<Rightarrow> event list \<Rightarrow> bool" where
  "wait_polls K [Dma_cs_read v] = (v AND RPI_DMA_CS_ACTIVE K = 0)"
| "wait_polls K [Dma_cs_read v1, Dma_cs_read v2] =
     (v1 AND RPI_DMA_CS_ACTIVE K \<noteq> 0 \<and> v2 AND RPI_DMA_CS_ERROR K \<noteq> 0)"
| "wait_polls K (Dma_cs_read v1 # Dma_cs_read v2 # Usleep n # evs) =
     (v1 AND RPI_DMA_CS_ACTIVE K \<noteq> 0 \<and> v2 AND RPI_DMA_CS_ERROR K = 0 \<and> n = 10
      \<and> wait_polls K evs)"
| "wait_polls K evs = False"

text \<open>No store into the buffer comes before the first poll of \<^verbatim>\<open>dma->cs\<close>.\<close>

definition no_write_before_wait :: "event list \<Rightarrow> bool" where
  "no_write_before_wait tr =
     list_all (\<lambda>ev. \<not> is_buf_write ev) (takeWhile (\<lambda>ev. \<not> is_cs_read ev) tr)"

subsection \<open>Concrete inputs\<close>

text \<open>
  A gamma table (a square curve), three channels (the second at half brightness), two
  buffer contents, a device, the register
  bits of the BCM2835's DMA and PCM blocks, and three behaviours of the DMA channel: idle;
  busy with a transfer at the first poll and idle afterwards; busy at the first poll and
  in error from then on.
\<close>

definition example_gamma :: "nat \<Rightarrow> u8" where
  "example_gamma n = of_nat (n * n div 255)"

definition channel_1 :: ws2811_channel where
  "channel_1 = \<lparr>count = 1, leds = [0xFF0000], brightness = 255, strip_type = 0x100800,
                 invert = 0, gpionum = 21\<rparr>"

definition channel_dim :: ws2811_channel where
  "channel_dim = \<lparr>count = 1, leds = [0xFF0000], brightness = 127, strip_type = 0x100800,
                   invert = 0, gpionum = 21\<rparr>"

definition channel_60M :: ws2811_channel where
  "channel_60M = \<lparr>count = 60000000, leds = replicate 60000000 0, brightness = 255,
                   strip_type = 0x100800, invert = 0, gpionum = 21\<rparr>"

definition mem_zero :: "nat \<Rightarrow> u32" where
  "mem_zero i = 0"

definition mem_ones :: "nat \<Rightarrow> u32" where
  "mem_ones i = 0xFFFFFFFF"

definition device_0 :: ws2811_device where
  "device_0 = \<lparr>pcm_raw = mem_zero, dma_cb_addr = 0xC0000000, cs_reads = 0, trace = []\<rparr>"

definition bcm2835 :: reg_consts where
  "bcm2835 = \<lparr>RPI_DMA_CS_RESET = 0x80000000, RPI_DMA_CS_INT = 4, RPI_DMA_CS_END = 2,
               RPI_DMA_CS_WAIT_OUTSTANDING_WRITES = 0x10000000,
               RPI_DMA_CS_PANIC_PRIORITY = (\<lambda>v. push_bit 20 (v AND 0xf)),
               RPI_DMA_CS_PRIORITY = (\<lambda>v. push_bit 16 (v AND 0xf)),
               RPI_DMA_CS_ACTIVE = 1, RPI_DMA_CS_ERROR = 0x100, RPI_PCM_CS_TXON = 4\<rparr>"

definition hw_idle :: hw where
  "hw_idle = \<lparr>dma_cs = (\<lambda>n. 0), dma_debug = 0, pcm_cs = 0\<rparr>"

definition hw_busy :: hw where
  "hw_busy = \<lparr>dma_cs = (\<lambda>n. if n < 2 then 1 else 0), dma_debug = 0, pcm_cs = 0\<rparr>"

definition hw_error :: hw where
  "hw_error = \<lparr>dma_cs = (\<lambda>n. if n < 2 then 1 else 0x101), dma_debug = 5, pcm_cs = 0\<rparr>"

text \<open>
  The state before \<^verbatim>\<open>ws2811_init\<close>, and collaborators that all succeed; the failing
  environments below change one result each.
\<close>

definition init_state_0 :: init_state where
  "init_state_0 = \<lparr>device = False, channel_leds = False, mbox_handle = 0, mbox_mem_ref = 0,
                    mbox_bus_addr = 0, mbox_size = 0, mbox_virt_addr = False,
                    device_dma = False, device_pcm = False,
                    device_gpio = False, device_cm_pcm = False, device_pcm_raw = mem_ones,
                    calls = []\<rparr>"

definition env_ok :: init_env where
  "env_ok = \<lparr>rpi_hw_detect = Some 0x3F000000, malloc_device = True, mbox_open = 3,
              mem_alloc = 7, mem_lock = 0xDE000000, mapmem_buf = True, malloc_leds = True,
              dmanum_to_offset = 0x7500, mapmem_dma = True, mapmem_pcm = True,
              mapmem_gpio = True, mapmem_cm_pcm = True, pcm_pin_alt = 0,
              PAGE_SIZE = 4096, sizeof_dma_cb_t = 32\<rparr>"

section \<open>Buffer sizing\<close>

lemma and_not7_eq: "(x AND NOT 7 :: u32) = push_bit 3 (drop_bit 3 x)"
proof -
  have m: "(7::u32) = mask 3" by (simp add: mask_eq_exp_minus_1)
  show ?thesis unfolding m
    by (rule bit_word_eqI) (auto simp: bit_simps)
qed

lemma and_minus8_eq: "(x AND - 8 :: u32) = x div 8 * 8"
  using and_not7_eq [of x] by (simp add: drop_bit_eq_div push_bit_eq_mult)

lemma unat_and_minus8: "unat (x AND - 8 :: u32) = 8 * (unat x div 8)"
proof -
  have lt: "unat x < 2 ^ 32" using unsigned_less [of x] by simp
  have "unat (x div 8 * 8) = (unat x div 8 * 8) mod 2 ^ 32"
    by (simp add: unat_word_ariths unat_div mod_simps)
  also have "\<dots> = 8 * (unat x div 8)"
    using lt by simp
  finally show ?thesis by (simp only: and_minus8_eq)
qed

text \<open>The byte count as a number, whatever the arguments: no step after the bit count wraps.\<close>

lemma unat_PCM_BYTE_COUNT:
  "unat (PCM_BYTE_COUNT nleds freq) = 8 * (unat (LED_BIT_COUNT nleds freq) div 64) + 8"
proof -
  define B where "B = unat (LED_BIT_COUNT nleds freq)"
  define q where "q = B div 64"
  have "B < 67108864 * 64"
    unfolding B_def using unsigned_less [of "LED_BIT_COUNT nleds freq"] by simp
  then have "q < 67108864" unfolding q_def by (rule less_mult_imp_div_less)
  then have small: "8 * q + 8 < (2::nat) ^ 32" by simp
  have d: "unat (drop_bit 3 (LED_BIT_COUNT nleds freq)) = B div 8"
    by (simp add: B_def drop_bit_eq_div unat_div)
  have a: "unat (drop_bit 3 (LED_BIT_COUNT nleds freq) AND - 8) = 8 * q"
    by (simp only: unat_and_minus8 d q_def) (simp add: div_mult2_eq)
  have p: "PCM_BYTE_COUNT nleds freq = (drop_bit 3 (LED_BIT_COUNT nleds freq) AND - 8) + 8"
    by (simp add: PCM_BYTE_COUNT_def)
  have e: "unat (8 :: u32) = 8" by simp
  have "unat (PCM_BYTE_COUNT nleds freq) = (8 * q + 8) mod 2 ^ LENGTH(32)"
    by (simp only: p unat_word_ariths(1) a e)
  then have "unat (PCM_BYTE_COUNT nleds freq) = (8 * q + 8) mod 2 ^ 32" by simp
  also have "\<dots> = 8 * q + 8" using small by (rule mod_less)
  finally show ?thesis by (simp only: q_def B_def)
qed

lemma unat_LED_BIT_COUNT:
  "unat (LED_BIT_COUNT nleds freq) = (72 * unat nleds + reset_bits freq) mod 2 ^ 32"
  unfolding LED_BIT_COUNT_def reset_bits_def
  by (simp add: unat_word_ariths mod_simps)

lemma nine_lt_bytes: "9 * n < 8 * ((72 * n + r) div 64) + 8" for n r :: nat
proof -
  have "72 * n div 64 \<le> (72 * n + r) div 64" by (rule div_le_mono) simp
  moreover have "72 * n div 64 = 9 * n div 8" by simp
  moreover have "9 * n < 8 * (9 * n div 8) + 8" by arith
  ultimately show ?thesis by simp
qed

lemma four_dvd_bytes: "4 dvd 8 * k + (8::nat)"
proof -
  have "8 * k + 8 = 4 * (2 * k + 2)" by simp
  then show ?thesis by (simp only: dvd_triv_left)
qed

lemma PCM_BYTE_COUNT_dvd: "4 dvd unat (PCM_BYTE_COUNT nleds freq)"
  unfolding unat_PCM_BYTE_COUNT by (rule four_dvd_bytes)

lemma unat_PCM_BYTE_COUNT_no_wrap:
  assumes "72 * unat nleds + reset_bits freq < 2 ^ 32"
  shows "unat (PCM_BYTE_COUNT nleds freq) = 8 * ((72 * unat nleds + reset_bits freq) div 64) + 8"
proof -
  have "unat (LED_BIT_COUNT nleds freq) = (72 * unat nleds + reset_bits freq) mod 2 ^ 32"
    by (rule unat_LED_BIT_COUNT)
  also have "\<dots> = 72 * unat nleds + reset_bits freq"
    using assms by (rule mod_less)
  finally show ?thesis by (simp only: unat_PCM_BYTE_COUNT)
qed

lemma PCM_BYTE_COUNT_gt:
  assumes "72 * unat nleds + reset_bits freq < 2 ^ 32"
  shows "9 * unat nleds < unat (PCM_BYTE_COUNT nleds freq)"
  unfolding unat_PCM_BYTE_COUNT_no_wrap [OF assms] by (rule nine_lt_bytes)

lemma PCM_BYTE_COUNT_nonzero: "PCM_BYTE_COUNT nleds freq \<noteq> 0"
proof
  assume "PCM_BYTE_COUNT nleds freq = 0"
  then have "unat (PCM_BYTE_COUNT nleds freq) = 0" by simp
  then show False by (simp only: unat_PCM_BYTE_COUNT)
qed

lemma reset_bits_le: "reset_bits freq \<le> 4294"
proof -
  have "unat (LED_RESET_uS * (freq * 3)) < 4294967296"
    using unsigned_less [of "LED_RESET_uS * (freq * 3)"] by simp
  then have "unat (LED_RESET_uS * (freq * 3)) \<le> 4294967295" by simp
  then have "unat (LED_RESET_uS * (freq * 3)) div 1000000 \<le> 4294967295 div 1000000"
    by (rule div_le_mono)
  then have "unat (LED_RESET_uS * (freq * 3)) div 1000000 \<le> 4294" by simp
  then show ?thesis
    unfolding reset_bits_def by (simp add: unat_div)
qed

text \<open>
  The bit count does not wrap whenever \<^verbatim>\<open>leds * 3 * 8 * 3\<close> fits a C \<^verbatim>\<open>int\<close>.
\<close>

lemma no_wrap_if_int:
  assumes "72 * unat nleds \<le> 2147483647"
  shows "72 * unat nleds + reset_bits freq < 2 ^ 32"
  using assms reset_bits_le [of freq] by simp

text \<open>
  Once the 32-bit bit count wraps, the byte count no longer covers the pixel data: the
  bound of \<open>PCM_BYTE_COUNT_gt\<close> holds exactly when the bit count does not wrap.
\<close>

lemma PCM_BYTE_COUNT_wrap:
  assumes "\<not> 72 * unat nleds + reset_bits freq < 2 ^ 32"
  shows "unat (PCM_BYTE_COUNT nleds freq) \<le> 9 * unat nleds"
proof -
  define B where "B = unat (LED_BIT_COUNT nleds freq)"
  define q where "q = B div 64"
  define n where "n = unat nleds"
  define r where "r = reset_bits freq"
  have r: "r \<le> 4294" unfolding r_def by (rule reset_bits_le)
  have big: "4294967296 \<le> 72 * n + r" using assms by (simp add: n_def r_def)
  have n: "59652263 \<le> n" using big r by simp
  have qB: "q \<le> B" unfolding q_def by (rule div_le_dividend)
  have "8 * q + 8 \<le> 9 * n"
  proof (cases "4294967296 \<le> 72 * n")
    case True
    have "B < 67108864 * 64"
      unfolding B_def using unsigned_less [of "LED_BIT_COUNT nleds freq"] by simp
    then have "q < 67108864" unfolding q_def by (rule less_mult_imp_div_less)
    then show ?thesis using True by simp
  next
    case False
    have "B = (72 * n + r) mod 4294967296"
      unfolding B_def n_def r_def by (simp only: unat_LED_BIT_COUNT) simp
    also have "\<dots> = (72 * n + r - 4294967296) mod 4294967296"
      using big by (simp add: le_mod_geq)
    also have "\<dots> \<le> 72 * n + r - 4294967296" by (rule mod_less_eq_dividend)
    finally have "B \<le> 4294" using False r by simp
    then show ?thesis using qB n by simp
  qed
  then show ?thesis by (simp only: unat_PCM_BYTE_COUNT q_def B_def n_def)
qed

lemma PCM_BYTE_COUNT_60000000: "PCM_BYTE_COUNT 60000000 800000 = 3129112"
  by (simp add: PCM_BYTE_COUNT_def LED_BIT_COUNT_def LED_RESET_uS_def)

lemma PCM_BYTE_COUNT_3: "PCM_BYTE_COUNT 3 800000 = 48"
  by (simp add: PCM_BYTE_COUNT_def LED_BIT_COUNT_def LED_RESET_uS_def)

lemma PCM_BYTE_COUNT_0: "PCM_BYTE_COUNT 0 800000 = 24"
  by (simp add: PCM_BYTE_COUNT_def LED_BIT_COUNT_def LED_RESET_uS_def)

lemma reset_bits_800000: "reset_bits 800000 = 132"
  by (simp add: reset_bits_def LED_RESET_uS_def)

text \<open>
  C2, as stated (for every LED count and tick rate the byte count exceeds \<open>9 * ledCount\<close>),
  fails in the code's 32-bit arithmetic: 60000000 LEDs at 800 kHz give 72 * 60000000 =
  4320000000 bits, which wraps to 25032704; the macro returns 3129112 bytes, fewer than the
  540000000 bytes of pixel data.
\<close>

theorem PCM_BYTE_COUNT_wraps_counterexample:
  "0 \<le> sint (60000000 :: u32) \<and> 0 < (800000 :: u32) \<and>
   PCM_BYTE_COUNT 60000000 800000 = 3129112 \<and>
   \<not> 9 * unat (60000000 :: u32) < unat (PCM_BYTE_COUNT 60000000 800000)"
  by (simp add: PCM_BYTE_COUNT_60000000)

text \<open>
  C2, amended: whenever the 32-bit bit count \<open>72 * ledCount + resetBits\<close> does not wrap
  (in particular whenever \<open>72 * ledCount\<close> fits a C \<^verbatim>\<open>int\<close>, since the reset bits are
  at most 4294), \<^verbatim>\<open>PCM_BYTE_COUNT\<close> is a multiple of 4, is strictly greater than
  \<open>9 * ledCount\<close>, and for no LEDs is the nonzero reset-latch size
  \<open>8 * (resetBits div 64) + 8\<close>.
\<close>

theorem PCM_BYTE_COUNT_size:
  assumes "72 * unat nleds + reset_bits freq < 2 ^ 32"
  shows "4 dvd unat (PCM_BYTE_COUNT nleds freq)
       \<and> 9 * unat nleds < unat (PCM_BYTE_COUNT nleds freq)
       \<and> PCM_BYTE_COUNT 0 freq \<noteq> 0
       \<and> unat (PCM_BYTE_COUNT 0 freq) = 8 * (reset_bits freq div 64) + 8"
proof -
  have z: "72 * unat (0 :: u32) + reset_bits freq < 2 ^ 32"
    using reset_bits_le [of freq] by simp
  have "unat (PCM_BYTE_COUNT 0 freq) = 8 * (reset_bits freq div 64) + 8"
    using unat_PCM_BYTE_COUNT_no_wrap [OF z] by simp
  then show ?thesis
    using PCM_BYTE_COUNT_dvd [of nleds freq] PCM_BYTE_COUNT_gt [OF assms]
      PCM_BYTE_COUNT_nonzero [of 0 freq]
    by (intro conjI)
qed

theorem PCM_BYTE_COUNT_size_witness:
  "72 * unat (3 :: u32) + reset_bits 800000 < 2 ^ 32
   \<and> 4 dvd unat (PCM_BYTE_COUNT 3 800000)
   \<and> 9 * unat (3 :: u32) < unat (PCM_BYTE_COUNT 3 800000)
   \<and> PCM_BYTE_COUNT 0 800000 \<noteq> 0
   \<and> unat (PCM_BYTE_COUNT 0 800000) = 8 * (reset_bits 800000 div 64) + 8"
proof -
  have h: "72 * unat (3 :: u32) + reset_bits 800000 < 2 ^ 32"
    by (simp add: reset_bits_800000)
  show ?thesis using h PCM_BYTE_COUNT_size [OF h] by (intro conjI) simp_all
qed

section \<open>Brightness scaling\<close>

lemma unat_and_ff: "unat (x AND 0xff :: u32) \<le> 255"
proof -
  have "x AND 0xff \<le> 0xff" by (rule word_and_le1)
  then have "unat (x AND 0xff) \<le> unat (0xff :: u32)" by (simp only: word_le_nat_alt)
  then show ?thesis by simp
qed

lemma unat_scale:
  fixes b :: u32
  shows "unat ((b AND 0xff) + 1) = unat (b AND 0xff) + 1"
proof -
  have "unat (b AND 0xff) + unat (1 :: u32) < 2 ^ LENGTH(32)"
    using unat_and_ff [of b] by simp
  then have "unat ((b AND 0xff) + 1) = unat (b AND 0xff) + unat (1 :: u32)"
    by (simp only: unat_add_lem)
  then show ?thesis by simp
qed

lemma unat_scaled_channel:
  "unat (scaled_channel led shift ((b AND 0xff) + 1)) =
     (unat (drop_bit (unat shift) led AND 0xff) * (unat (b AND 0xff) + 1)) div 256"
proof -
  define v where "v = drop_bit (unat shift) led AND 0xff"
  define s where "s = (b AND 0xff) + 1"
  have v: "unat v \<le> 255" unfolding v_def by (rule unat_and_ff)
  have s: "unat s = unat (b AND 0xff) + 1" unfolding s_def by (rule unat_scale)
  have "unat s \<le> 256" using unat_and_ff [of b] s by simp
  then have "unat v * unat s \<le> 255 * 256" using v by (rule mult_le_mono [rotated])
  then have "unat v * unat s < 2 ^ LENGTH(32)" by simp
  then have m: "unat (v * s) = unat v * unat s" by (simp only: unat_mult_lem)
  have "unat (drop_bit 8 (v * s)) = unat (v * s) div 256"
    by (simp add: drop_bit_eq_div unat_div)
  then show ?thesis
    unfolding scaled_channel_def by (simp only: m s v_def [symmetric] s_def [symmetric])
qed

lemma scaled_channel_le:
  "unat (scaled_channel led shift ((b AND 0xff) + 1)) \<le> 255"
proof -
  define v where "v = unat (drop_bit (unat shift) led AND 0xff)"
  define s where "s = unat (b AND 0xff) + 1"
  have v: "v \<le> 255" unfolding v_def by (rule unat_and_ff)
  have s: "s \<le> 256" unfolding s_def using unat_and_ff [of b] by simp
  have "v * s \<le> 255 * 256" using v s by (rule mult_le_mono)
  then have "v * s div 256 \<le> 255 * 256 div 256" by (rule div_le_mono)
  then have "v * s div 256 \<le> 255" by simp
  then show ?thesis by (simp only: unat_scaled_channel v_def s_def)
qed

lemma scaled_channel_max: "scaled_channel 0x00FF0000 16 ((255 AND 0xff) + 1) = 255"
  by (simp add: scaled_channel_def)

text \<open>
  The colour bytes the code computes, on 32-bit words with shifts and masks, are those of
  the description on numbers.
\<close>

lemma unat_and_ff_mod: "unat (x AND 0xff :: u32) = unat x mod 256"
proof -
  have m: "(0xff :: u32) = mask 8" by (simp add: mask_eq_exp_minus_1)
  have "unat (x AND mask 8) = unat (take_bit 8 x)" by (simp only: take_bit_eq_mask)
  also have "\<dots> = take_bit 8 (unat x)" by (simp only: unsigned_take_bit_eq)
  also have "\<dots> = unat x mod 256" by (simp add: take_bit_eq_mod)
  finally show ?thesis by (simp only: m)
qed

lemma unat_shift_right: "unat (drop_bit n x :: u32) = unat x div 2 ^ n"
proof -
  have "unat (drop_bit n x) = drop_bit n (unat x)" by (rule unat_drop_bit_eq)
  then show ?thesis by (simp only: drop_bit_eq_div)
qed

lemma unat_byte: "unat (drop_bit n x AND 0xff :: u32) = spec_channel_byte x n"
proof -
  have "unat (drop_bit n x AND 0xff) = unat (drop_bit n x) mod 256" by (rule unat_and_ff_mod)
  then show ?thesis by (simp only: unat_shift_right spec_channel_byte_def)
qed

lemma scaled_channel_spec:
  "unat (scaled_channel pixel shift ((b AND 0xff) + 1)) =
     spec_scaled (spec_channel_byte pixel (unat shift)) (unat b mod 256)"
proof -
  have "unat (scaled_channel pixel shift ((b AND 0xff) + 1)) =
     (unat (drop_bit (unat shift) pixel AND 0xff) * (unat (b AND 0xff) + 1)) div 256"
    by (rule unat_scaled_channel)
  then show ?thesis by (simp only: unat_byte) (simp only: unat_and_ff_mod spec_scaled_def)
qed

lemma led_colors_spec: "led_colors gm channel i = spec_colors gm channel i"
proof -
  have s: "unat (drop_bit n (strip_type channel) AND 0xff) = (unat (strip_type channel) div 2 ^ n) mod 256"
    for n
  proof -
    have "unat (drop_bit n (strip_type channel) AND 0xff) = unat (drop_bit n (strip_type channel)) mod 256"
      by (rule unat_and_ff_mod)
    then show ?thesis by (simp only: unat_shift_right)
  qed
  show ?thesis
    unfolding led_colors_def Let_def spec_colors_def spec_shifts_def list.map
    by (simp only: scaled_channel_spec s) simp
qed

lemma spec_scaled_le: "spec_scaled (v mod 256) (b mod 256) \<le> 255"
proof -
  have v: "v mod 256 \<le> 255" and b: "b mod 256 + 1 \<le> 256"
    using mod_less_divisor [of 256 v] mod_less_divisor [of 256 b] by simp_all
  have "v mod 256 * (b mod 256 + 1) \<le> 255 * 256" using v b by (rule mult_le_mono)
  then have "v mod 256 * (b mod 256 + 1) div 256 \<le> 255 * 256 div 256" by (rule div_le_mono)
  then show ?thesis by (simp add: spec_scaled_def)
qed

lemma spec_scaled_max: "spec_scaled 255 255 = 255"
  by (simp add: spec_scaled_def)

lemma led_colors_channel_1: "led_colors example_gamma channel_1 0 = [255, 0, 0]"
  by (simp add: led_colors_def channel_1_def scaled_channel_def example_gamma_def)

lemma led_colors_channel_dim: "led_colors example_gamma channel_dim 0 = [63, 0, 0]"
  by (simp add: led_colors_def channel_dim_def scaled_channel_def example_gamma_def)

text \<open>
  C6: the \<^verbatim>\<open>color[]\<close> array that \<^verbatim>\<open>ws2811_render\<close> computes for a pixel is the gamma
  table applied to \<open>(v * (brightness + 1)) div 256\<close> in integer arithmetic, for each of the
  three channel bytes \<open>v\<close> (0 to 255) and the caller's brightness (0 to 255, scale 1 to
  256): the 32-bit product of the code does not wrap. The scaled value, which is the
  table index the code computes, is at most 255 for every channel byte and brightness;
  byte 255 at brightness 255 (scale 256) scales to exactly 255, as the red byte of pixel
  \<open>0xFF0000\<close> does; at brightness 127 it scales to 127, which the square gamma curve
  takes to 63.
\<close>

theorem brightness_scaling:
  "led_colors gm channel i = spec_colors gm channel i
   \<and> unat (scaled_channel pixel shift ((brightness channel AND 0xff) + 1)) =
       spec_scaled (spec_channel_byte pixel (unat shift)) (unat (brightness channel) mod 256)
   \<and> unat (scaled_channel pixel shift ((brightness channel AND 0xff) + 1)) \<le> 255
   \<and> spec_scaled (v mod 256) (b mod 256) \<le> 255
   \<and> spec_scaled 255 255 = 255
   \<and> led_colors example_gamma channel_1 0 = [255, 0, 0]
   \<and> led_colors example_gamma channel_dim 0 = [63, 0, 0]"
  by (intro conjI led_colors_spec scaled_channel_spec scaled_channel_le spec_scaled_le
      spec_scaled_max led_colors_channel_1 led_colors_channel_dim)

section \<open>The encoding loop\<close>

lemma bit_clear_u32:
  fixes w :: u32
  assumes "b < 32"
  shows "bit (w AND NOT (push_bit b 1)) n \<longleftrightarrow> bit w n \<and> n \<noteq> b"
  using assms by (auto simp: bit_simps dest: bit_imp_le_length)

lemma bit_set_u32:
  fixes w :: u32
  assumes "b < 32"
  shows "bit (w OR push_bit b 1) n \<longleftrightarrow> bit w n \<or> n = b"
  using assms by (auto simp: bit_simps)

lemma bit_clear_exp_u32:
  fixes w :: u32
  assumes "b < 32"
  shows "bit (w AND NOT (2 ^ b)) n \<longleftrightarrow> bit w n \<and> n \<noteq> b"
  using bit_clear_u32 [OF assms, of w n] by simp

lemma bit_set_exp_u32:
  fixes w :: u32
  assumes "b < 32"
  shows "bit (w OR 2 ^ b) n \<longleftrightarrow> bit w n \<or> n = b"
  using bit_set_u32 [OF assms, of w n] by simp

lemma col_eq:
  fixes p b :: nat
  assumes "b \<le> 31"
  shows "31 - p mod 32 = b \<longleftrightarrow> p mod 32 = 31 - b"
proof -
  have "p mod 32 < 32" by simp
  then show ?thesis using assms by arith
qed

lemma pos_eq:
  fixes p w c :: nat
  assumes "c < 32"
  shows "p div 32 = w \<and> p mod 32 = c \<longleftrightarrow> p = 32 * w + c"
  using assms by auto

lemma render_symbol_bit_fields:
  assumes "bitpos e = int b"
  shows "buf (render_symbol_bit symbol l e) =
           (buf e)(wordpos e :=
              (if symbol AND push_bit l 1 \<noteq> 0
               then (buf e (wordpos e) AND NOT (push_bit b 1)) OR push_bit b 1
               else buf e (wordpos e) AND NOT (push_bit b 1)))"
    and "wordpos (render_symbol_bit symbol l e) = (if b = 0 then wordpos e + 1 else wordpos e)"
    and "bitpos (render_symbol_bit symbol l e) = (if b = 0 then 31 else int b - 1)"
    and "set (writes (render_symbol_bit symbol l e)) = insert (wordpos e) (set (writes e))"
  using assms by (auto simp: render_symbol_bit_def Let_def)

text \<open>
  Every level of the loop nest is summed up by \<open>emits\<close>: the body of the innermost loop
  puts one bit, and a loop over a list puts the concatenation of what its body puts.
\<close>

lemma emitsI:
  assumes "enc_ok e'" and "enc_pos e' = enc_pos e + length bs"
    and "\<And>p. stream_bit (buf e') p =
            (if enc_pos e \<le> p \<and> p < enc_pos e + length bs then bs ! (p - enc_pos e)
             else stream_bit (buf e) p)"
    and "set (writes e') = set (writes e) \<union> (\<lambda>p. p div 32) ` {enc_pos e ..< enc_pos e + length bs}"
  shows "emits e bs e'"
  unfolding emits_def using assms by (intro conjI allI)

lemma render_symbol_bit_emits:
  assumes "enc_ok e"
  shows "emits e [symbol AND push_bit l 1 \<noteq> 0] (render_symbol_bit symbol l e)"
proof -
  define b where "b = nat (bitpos e)"
  define c where "c = 31 - b"
  have b: "bitpos e = int b" "b \<le> 31"
    using assms unfolding enc_ok_def b_def by (simp_all add: nat_le_iff)
  have c: "c < 32" "31 - c = b" using b(2) unfolding c_def by simp_all
  note f = render_symbol_bit_fields [OF b(1), of symbol l]
  have pos: "enc_pos e = 32 * wordpos e + c"
    by (simp add: enc_pos_def b c_def)
  have dv: "enc_pos e div 32 = wordpos e" using c(1) by (simp add: pos)
  have md: "enc_pos e mod 32 = c" using c(1) by (simp add: pos)
  show ?thesis
  proof (rule emitsI)
    show "enc_ok (render_symbol_bit symbol l e)"
      using b(2) by (simp add: enc_ok_def f)
    show "enc_pos (render_symbol_bit symbol l e) = enc_pos e + length [symbol AND push_bit l 1 \<noteq> 0]"
    proof (cases b)
      case 0
      then show ?thesis by (simp add: enc_pos_def f b)
    next
      case (Suc c)
      then show ?thesis using b(2) by (simp add: enc_pos_def f b)
    qed
    show "set (writes (render_symbol_bit symbol l e)) =
      set (writes e) \<union> (\<lambda>p. p div 32) ` {enc_pos e ..< enc_pos e + length [symbol AND push_bit l 1 \<noteq> 0]}"
      by (simp add: f dv)
  next
    fix p
    show "stream_bit (buf (render_symbol_bit symbol l e)) p =
            (if enc_pos e \<le> p \<and> p < enc_pos e + length [symbol AND push_bit l 1 \<noteq> 0]
             then [symbol AND push_bit l 1 \<noteq> 0] ! (p - enc_pos e)
             else stream_bit (buf e) p)"
    proof (cases "p = enc_pos e")
      case True
      then have "p div 32 = wordpos e" "31 - p mod 32 = b"
        by (simp_all only: dv md c)
      then show ?thesis using True b(2)
        by (simp add: stream_bit_def f bit_set_exp_u32 bit_clear_exp_u32)
    next
      case False
      have "\<not> (p div 32 = wordpos e \<and> 31 - p mod 32 = b)"
      proof
        assume a: "p div 32 = wordpos e \<and> 31 - p mod 32 = b"
        then have "p mod 32 = 31 - b" using b(2) by (simp add: col_eq)
        then have "p mod 32 = c" by (simp only: c_def)
        with a have "p = 32 * wordpos e + c"
          using pos_eq [of c p "wordpos e"] c(1) by simp
        with False pos show False by simp
      qed
      then show ?thesis using False b(2)
        by (auto simp: stream_bit_def f bit_set_exp_u32 bit_clear_exp_u32)
    qed
  qed
qed

lemma emits_ok: "emits e bs e' \<Longrightarrow> enc_ok e'"
  by (simp add: emits_def)

lemma emits_refl: "enc_ok e \<Longrightarrow> emits e [] e"
  by (auto simp: emits_def)

lemma emits_trans:
  assumes A: "emits e bs e'" and B: "emits e' cs e''"
  shows "emits e (bs @ cs) e''"
proof (rule emitsI)
  have pe': "enc_pos e' = enc_pos e + length bs" using A by (simp add: emits_def)
  have pe'': "enc_pos e'' = enc_pos e' + length cs" using B by (simp add: emits_def)
  show "enc_ok e''" using B by (rule emits_ok)
  show "enc_pos e'' = enc_pos e + length (bs @ cs)" by (simp add: pe' pe'')
  have "{enc_pos e ..< enc_pos e + length (bs @ cs)} =
        {enc_pos e ..< enc_pos e + length bs} \<union> {enc_pos e' ..< enc_pos e' + length cs}"
    by (auto simp: pe')
  moreover have "set (writes e') = set (writes e) \<union> (\<lambda>p. p div 32) ` {enc_pos e ..< enc_pos e + length bs}"
    using A by (simp add: emits_def)
  moreover have "set (writes e'') = set (writes e') \<union> (\<lambda>p. p div 32) ` {enc_pos e' ..< enc_pos e' + length cs}"
    using B by (simp add: emits_def)
  ultimately show "set (writes e'') =
      set (writes e) \<union> (\<lambda>p. p div 32) ` {enc_pos e ..< enc_pos e + length (bs @ cs)}"
    by (simp only: image_Un Un_assoc)
  fix p
  have a: "stream_bit (buf e') p =
            (if enc_pos e \<le> p \<and> p < enc_pos e + length bs then bs ! (p - enc_pos e)
             else stream_bit (buf e) p)"
    using A by (simp add: emits_def)
  have b: "stream_bit (buf e'') p =
            (if enc_pos e' \<le> p \<and> p < enc_pos e' + length cs then cs ! (p - enc_pos e')
             else stream_bit (buf e') p)"
    using B by (simp add: emits_def)
  show "stream_bit (buf e'') p =
            (if enc_pos e \<le> p \<and> p < enc_pos e + length (bs @ cs) then (bs @ cs) ! (p - enc_pos e)
             else stream_bit (buf e) p)"
    unfolding b a pe' by (auto simp: nth_append)
qed

lemma foldl_emits:
  assumes step: "\<And>x e. enc_ok e \<Longrightarrow> emits e (f x) (g e x)"
    and ok: "enc_ok e"
  shows "emits e (concat (map f xs)) (foldl g e xs)"
  using ok
proof (induction xs arbitrary: e)
  case Nil
  then show ?case by (simp add: emits_refl)
next
  case (Cons x xs)
  have s: "emits e (f x) (g e x)" using Cons.prems by (rule step)
  then have "enc_ok (g e x)" by (rule emits_ok)
  then have "emits (g e x) (concat (map f xs)) (foldl g (g e x) xs)" by (rule Cons.IH)
  with s have "emits e (f x @ concat (map f xs)) (foldl g (g e x) xs)" by (rule emits_trans)
  then show ?case by simp
qed

lemma symbol_bits_high: "map (\<lambda>l. SYMBOL_HIGH AND push_bit l 1 \<noteq> 0) [2, 1, 0] = [True, True, False]"
  by (simp add: SYMBOL_HIGH_def)

lemma symbol_bits_low: "map (\<lambda>l. SYMBOL_LOW AND push_bit l 1 \<noteq> 0) [2, 1, 0] = [True, False, False]"
  by (simp add: SYMBOL_LOW_def)

lemma render_symbol_emits:
  assumes "enc_ok e"
  shows "emits e (map (\<lambda>l. symbol AND push_bit l 1 \<noteq> 0) [2, 1, 0])
           (foldl (\<lambda>e l. render_symbol_bit symbol l e) e [2, 1, 0])"
proof -
  have "emits e (concat (map (\<lambda>l. [symbol AND push_bit l 1 \<noteq> 0]) [2, 1, 0]))
           (foldl (\<lambda>e l. render_symbol_bit symbol l e) e [2, 1, 0])"
    by (rule foldl_emits [where f = "\<lambda>l. [symbol AND push_bit l 1 \<noteq> 0]"
          and g = "\<lambda>e l. render_symbol_bit symbol l e"])
      (rule render_symbol_bit_emits, assumption, rule assms)
  then show ?thesis by simp
qed

lemma render_color_bit_emits:
  assumes "enc_ok e"
  shows "emits e (symbol_pattern (bit c k \<noteq> (invt \<noteq> 0))) (render_color_bit invt c k e)"
proof -
  have t: "(c AND push_bit k 1 \<noteq> 0) = bit c k"
    by (simp only: bit_iff_and_push_bit_not_eq_0)
  show ?thesis
    using render_symbol_emits [OF assms, of SYMBOL_HIGH] render_symbol_emits [OF assms, of SYMBOL_LOW]
    unfolding render_color_bit_def Let_def t symbol_bits_high symbol_bits_low symbol_pattern_def
    by auto
qed

lemma render_color_emits:
  assumes "enc_ok e"
  shows "emits e (color_pattern invt c) (render_color invt c e)"
  unfolding color_pattern_def render_color_def
  by (rule foldl_emits [where f = "\<lambda>k. symbol_pattern (bit c k \<noteq> (invt \<noteq> 0))"
        and g = "\<lambda>e k. render_color_bit invt c k e"])
    (rule render_color_bit_emits, assumption, rule assms)

lemma length_led_colors: "length (led_colors gm channel i) = 3"
  by (simp add: led_colors_def Let_def)

lemma render_led_emits:
  assumes "enc_ok e"
  shows "emits e (led_pattern gm channel i) (render_led gm channel i e)"
  unfolding led_pattern_def render_led_def Let_def length_led_colors
  by (rule foldl_emits [where f = "\<lambda>j. color_pattern (invert channel) (led_colors gm channel i ! j)"
        and g = "\<lambda>e j. render_color (invert channel) (led_colors gm channel i ! j) e"])
    (rule render_color_emits, assumption, rule assms)

lemma render_leds_emits:
  assumes "enc_ok e"
  shows "emits e (frame_pattern gm channel) (render_leds gm channel e)"
  unfolding frame_pattern_def render_leds_def
  by (rule foldl_emits [where f = "led_pattern gm channel"
        and g = "\<lambda>e i. render_led gm channel i e"])
    (rule render_led_emits, assumption, rule assms)

lemma render_encode_emits:
  "emits (render_start m) (frame_pattern gm channel) (render_encode gm channel m)"
  unfolding render_encode_def
  by (rule render_leds_emits) (simp add: enc_ok_def render_start_def)

lemma concat_map_uniform_length:
  assumes "\<And>x. length (f x) = c"
  shows "length (concat (map f xs)) = length xs * c"
  by (induction xs) (simp_all add: assms)

lemma concat_map_uniform_nth:
  assumes len: "\<And>x. length (f x) = c"
    and "i < length xs" and "r < c"
  shows "concat (map f xs) ! (i * c + r) = f (xs ! i) ! r"
  using assms(2)
proof (induction xs arbitrary: i)
  case Nil
  then show ?case by simp
next
  case (Cons x xs)
  show ?case
  proof (cases i)
    case 0
    then show ?thesis using \<open>r < c\<close> by (simp add: nth_append len)
  next
    case (Suc i')
    then have "i' < length xs" using Cons.prems by simp
    then have "concat (map f xs) ! (i' * c + r) = f (xs ! i') ! r" by (rule Cons.IH)
    then show ?thesis using Suc by (simp add: nth_append len)
  qed
qed

lemma length_symbol_pattern: "length (symbol_pattern b) = 3"
  by (simp add: symbol_pattern_def)

lemma length_color_pattern: "length (color_pattern invt c) = 24"
  unfolding color_pattern_def
  by (simp add: concat_map_uniform_length [where c = 3] length_symbol_pattern)

lemma length_led_pattern: "length (led_pattern gm channel i) = 72"
  unfolding led_pattern_def
  by (simp add: concat_map_uniform_length [where c = 24] length_color_pattern)

lemma length_frame_pattern: "length (frame_pattern gm channel) = 72 * nat (count channel)"
  unfolding frame_pattern_def
  by (simp add: concat_map_uniform_length [where c = 72] length_led_pattern)

lemma bit_order_nth:
  assumes "k < 8"
  shows "[7, 6, 5, 4, 3, 2, 1, 0 :: nat] ! (7 - k) = k"
proof -
  have "[7, 6, 5, 4, 3, 2, 1, 0 :: nat] = rev [0..<8]" by (simp add: upt_rec)
  then show ?thesis using assms by (simp only: rev_nth length_upt) simp
qed

lemma color_pattern_nth:
  assumes "k < 8" and "t < 3"
  shows "color_pattern invt c ! ((7 - k) * 3 + t) = symbol_pattern (bit c k \<noteq> (invt \<noteq> 0)) ! t"
proof -
  have "color_pattern invt c ! ((7 - k) * 3 + t) =
        symbol_pattern (bit c ([7, 6, 5, 4, 3, 2, 1, 0] ! (7 - k)) \<noteq> (invt \<noteq> 0)) ! t"
    unfolding color_pattern_def
    by (rule concat_map_uniform_nth [where c = 3]) (simp_all add: length_symbol_pattern assms)
  then show ?thesis by (simp only: bit_order_nth [OF assms(1)])
qed

lemma led_pattern_nth:
  assumes "j < 3" and "r < 24"
  shows "led_pattern gm channel i ! (j * 24 + r) =
         color_pattern (invert channel) (led_colors gm channel i ! j) ! r"
proof -
  have "led_pattern gm channel i ! (j * 24 + r) =
        color_pattern (invert channel) (led_colors gm channel i ! ([0..<3] ! j)) ! r"
    unfolding led_pattern_def
    by (rule concat_map_uniform_nth [where c = 24]) (simp_all add: length_color_pattern assms)
  then show ?thesis using assms(1) by simp
qed

lemma frame_pattern_led:
  assumes "i < nat (count channel)" and "r < 72"
  shows "frame_pattern gm channel ! (i * 72 + r) = led_pattern gm channel i ! r"
proof -
  have "frame_pattern gm channel ! (i * 72 + r) =
        led_pattern gm channel ([0..<nat (count channel)] ! i) ! r"
    unfolding frame_pattern_def
    by (rule concat_map_uniform_nth [where c = 72]) (simp_all add: length_led_pattern assms)
  then show ?thesis using assms(1) by simp
qed

lemma frame_pattern_nth:
  assumes "i < nat (count channel)" and "j < 3" and "k < 8" and "t < 3"
  shows "frame_pattern gm channel ! (72 * i + 24 * j + 3 * (7 - k) + t) =
         symbol_pattern (bit (led_colors gm channel i ! j) k \<noteq> (invert channel \<noteq> 0)) ! t"
proof -
  define r2 where "r2 = (7 - k) * 3 + t"
  define r1 where "r1 = j * 24 + r2"
  have r2: "r2 < 24" unfolding r2_def using assms(4) by simp
  have r1: "r1 < 72" unfolding r1_def using r2 assms(2) by simp
  have "72 * i + 24 * j + 3 * (7 - k) + t = i * 72 + r1"
    by (simp add: r1_def r2_def)
  then have "frame_pattern gm channel ! (72 * i + 24 * j + 3 * (7 - k) + t) =
        frame_pattern gm channel ! (i * 72 + r1)" by (simp only:)
  also have "\<dots> = led_pattern gm channel i ! r1"
    using assms(1) r1 by (rule frame_pattern_led)
  also have "\<dots> = color_pattern (invert channel) (led_colors gm channel i ! j) ! r2"
    unfolding r1_def using assms(2) r2 by (rule led_pattern_nth)
  also have "\<dots> = symbol_pattern (bit (led_colors gm channel i ! j) k \<noteq> (invert channel \<noteq> 0)) ! t"
    unfolding r2_def using assms(3,4) by (rule color_pattern_nth)
  finally show ?thesis .
qed

lemma enc_pos_render_start: "enc_pos (render_start m) = 0"
  by (simp add: enc_pos_def render_start_def)

lemma render_start_fields: "buf (render_start m) = m" "writes (render_start m) = []"
  by (simp_all add: render_start_def)

lemma stream_bit_render_encode:
  "stream_bit (buf (render_encode gm channel m)) p =
     (if p < 72 * nat (count channel) then frame_pattern gm channel ! p else stream_bit m p)"
  using render_encode_emits [of m gm channel]
  by (simp add: emits_def enc_pos_render_start length_frame_pattern render_start_fields)

lemma writes_render_encode:
  "set (writes (render_encode gm channel m)) = (\<lambda>p. p div 32) ` {0 ..< 72 * nat (count channel)}"
  using render_encode_emits [of m gm channel]
  by (simp add: emits_def enc_pos_render_start length_frame_pattern render_start_fields)


lemma list3_nth:
  assumes "length xs = 3"
  shows "[xs ! 0, xs ! 1, xs ! 2] = xs"
  using assms by (auto simp: list_eq_iff_nth_eq less_Suc_eq numeral_3_eq_3 numeral_2_eq_2)

text \<open>
  C1: for LED \<open>i\<close> (in index order), colour \<open>j\<close> (the byte of the packed pixel at the
  red, green or blue shift of the strip type, scaled by the brightness and looked up in the
  gamma table: \<open>spec_colors\<close>) and bit \<open>k\<close> of that byte, most significant bit first, the
  encoding loop of \<^verbatim>\<open>ws2811_render\<close> leaves the three stream bits
  at positions \<open>72 * i + 24 * j + 3 * (7 - k)\<close> and the two after it equal to \<open>110\<close> when
  the bit is 1 and \<open>100\<close> when it is 0, and the other way round when \<^verbatim>\<open>invert\<close> is set.
  Stream position \<open>p\<close> is bit \<open>31 - p mod 32\<close> of word \<open>p div 32\<close>: the symbols start at
  bit 31 of word 0, fill each word downwards and cross word boundaries without a gap.
\<close>

theorem render_symbol_encoding:
  assumes "i < nat (count channel)" and "j < 3" and "k < 8"
  shows "map (stream_bit (buf (render_encode gm channel m)))
           [72 * i + 24 * j + 3 * (7 - k),
            72 * i + 24 * j + 3 * (7 - k) + 1,
            72 * i + 24 * j + 3 * (7 - k) + 2]
         = (if bit (spec_colors gm channel i ! j) k \<noteq> (invert channel \<noteq> 0)
            then [True, True, False] else [True, False, False])"
proof -
  define one where "one = (bit (led_colors gm channel i ! j) k \<noteq> (invert channel \<noteq> 0))"
  define p where "p = 72 * i + 24 * j + 3 * (7 - k)"
  have lt: "p + t < 72 * nat (count channel)" if "t < 3" for t
  proof -
    have "p + t < 72 * i + 72" using that assms(2) unfolding p_def by simp
    also have "\<dots> \<le> 72 * nat (count channel)" using assms(1) by simp
    finally show ?thesis .
  qed
  have nth: "stream_bit (buf (render_encode gm channel m)) (p + t) = symbol_pattern one ! t"
    if "t < 3" for t
    using lt [OF that] frame_pattern_nth [OF assms that, of gm]
    by (simp only: stream_bit_render_encode p_def one_def if_True)
  have "map (stream_bit (buf (render_encode gm channel m))) [p, p + 1, p + 2] =
        [symbol_pattern one ! 0, symbol_pattern one ! 1, symbol_pattern one ! 2]"
    using nth [of 0] nth [of 1] nth [of 2] by simp
  also have "\<dots> = symbol_pattern one" by (rule list3_nth) (rule length_symbol_pattern)
  finally show ?thesis unfolding p_def one_def symbol_pattern_def led_colors_spec .
qed

lemma spec_colors_channel_dim: "spec_colors example_gamma channel_dim 0 = [63, 0, 0]"
  by (simp only: led_colors_spec [symmetric] led_colors_channel_dim)

theorem render_symbol_encoding_witness:
  "0 < nat (count channel_dim) \<and> (0::nat) < 3 \<and> (7::nat) < 8 \<and>
   map (stream_bit (buf (render_encode example_gamma channel_dim mem_zero))) [0, 1, 2]
     = [True, False, False]"
proof -
  have h: "0 < nat (count channel_dim)" by (simp add: channel_dim_def)
  have i: "invert channel_dim = 0" by (simp add: channel_dim_def)
  show ?thesis
    using h render_symbol_encoding [OF h, of 0 7 example_gamma mem_zero]
    by (simp add: spec_colors_channel_dim i numeral_2_eq_2)
qed

text \<open>
  C10: the encoding loop changes only the first \<open>72 * count\<close> bits of the stream; every
  bit from position \<open>72 * count\<close> on keeps the value it had before the call.
\<close>

theorem render_preserves_tail:
  assumes "72 * nat (count channel) \<le> p"
  shows "stream_bit (buf (render_encode gm channel m)) p = stream_bit m p"
  using assms by (simp add: stream_bit_render_encode)

theorem render_preserves_tail_witness:
  "72 * nat (count channel_1) \<le> 72 \<and>
   stream_bit (buf (render_encode example_gamma channel_1 mem_ones)) 72 = True"
proof -
  have h: "72 * nat (count channel_1) \<le> 72" by (simp add: channel_1_def)
  show ?thesis
    using h render_preserves_tail [OF h, of example_gamma mem_ones]
    by (simp add: stream_bit_def mem_ones_def)
qed

lemma unat_count:
  assumes "0 \<le> c" and "nat c < 2 ^ 32"
  shows "unat (word_of_int c :: u32) = nat c"
proof -
  have "(word_of_int c :: u32) = of_nat (nat c)" using assms(1) by simp
  then have "unat (word_of_int c :: u32) = nat c mod 2 ^ LENGTH(32)"
    by (simp only: unat_of_nat)
  then show ?thesis using assms(2) by simp
qed

lemma write_index_bound:
  fixes p n bytes :: nat
  assumes "p < 72 * n" and "9 * n < bytes" and "4 dvd bytes"
  shows "p div 32 < bytes div 4"
proof -
  obtain q where q: "bytes = 4 * q" using assms(3) by (rule dvdE)
  have "32 * (p div 32) \<le> p" by simp
  also have "p < 72 * n" by (rule assms(1))
  also have "72 * n < 8 * bytes" using assms(2) by simp
  finally have "32 * (p div 32) < 32 * q" by (simp add: q)
  then have "p div 32 < q" by simp
  then show ?thesis by (simp add: q)
qed

text \<open>
  C8, amended: whenever the 32-bit bit count \<open>72 * count + resetBits\<close> does not wrap, every
  word index the encoding loop stores to is below \<^verbatim>\<open>PCM_BYTE_COUNT(count, freq) / 4\<close>, and
  with no LEDs the loop stores nothing.
\<close>

theorem render_writes_in_buffer:
  assumes "72 * nat (count channel) + reset_bits freq < 2 ^ 32"
  shows "(\<forall>w \<in> set (writes (render_encode gm channel m)).
            w < unat (PCM_BYTE_COUNT (word_of_int (count channel)) freq) div 4)
         \<and> writes (render_encode gm (channel\<lparr>count := 0\<rparr>) m) = []"
proof (intro conjI ballI)
  have "set (writes (render_encode gm (channel\<lparr>count := 0\<rparr>) m)) = {}"
    by (simp add: writes_render_encode)
  then show "writes (render_encode gm (channel\<lparr>count := 0\<rparr>) m) = []" by simp
next
  fix w
  assume "w \<in> set (writes (render_encode gm channel m))"
  then obtain p where p: "p < 72 * nat (count channel)" and w: "w = p div 32"
    unfolding writes_render_encode by auto
  from p have pos: "0 < nat (count channel)" by (cases "nat (count channel)") simp_all
  then have c0: "0 \<le> count channel" by simp
  have "nat (count channel) \<le> 72 * nat (count channel) + reset_bits freq" by simp
  also note assms
  finally have u: "unat (word_of_int (count channel) :: u32) = nat (count channel)"
    using c0 by (simp add: unat_count)
  have a: "72 * unat (word_of_int (count channel) :: u32) + reset_bits freq < 2 ^ 32"
    using assms by (simp only: u)
  have "9 * nat (count channel) < unat (PCM_BYTE_COUNT (word_of_int (count channel)) freq)"
    using PCM_BYTE_COUNT_gt [OF a] by (simp only: u)
  with p show "w < unat (PCM_BYTE_COUNT (word_of_int (count channel)) freq) div 4"
    unfolding w by (rule write_index_bound) (rule PCM_BYTE_COUNT_dvd)
qed

theorem render_writes_in_buffer_witness:
  "72 * nat (count channel_1) + reset_bits 800000 < 2 ^ 32
   \<and> 2 \<in> set (writes (render_encode example_gamma channel_1 mem_zero))
   \<and> (2 :: nat) < unat (PCM_BYTE_COUNT (word_of_int (count channel_1)) 800000) div 4
   \<and> writes (render_encode example_gamma (channel_1\<lparr>count := 0\<rparr>) mem_zero) = []"
proof -
  have h: "72 * nat (count channel_1) + reset_bits 800000 < 2 ^ 32"
    by (simp add: channel_1_def reset_bits_800000)
  have "(71 :: nat) \<in> {0 ..< 72 * nat (count channel_1)}" by (simp add: channel_1_def)
  then have "71 div 32 \<in> (\<lambda>p. p div 32) ` {0 ..< 72 * nat (count channel_1)}"
    by (rule imageI)
  then have m: "2 \<in> set (writes (render_encode example_gamma channel_1 mem_zero))"
    by (simp only: writes_render_encode) simp
  show ?thesis
    using h m render_writes_in_buffer [OF h, of example_gamma mem_zero]
    by blast
qed

text \<open>
  C8, as stated for every LED count, fails where the bit count wraps: with 60000000 LEDs
  at 800 kHz the buffer is sized at 3129112 bytes, 782278 words, and the loop stores to
  word 1000000 (among others).
\<close>

theorem render_writes_counterexample:
  "0 \<le> count channel_60M \<and> 0 < (800000 :: u32) \<and>
   1000000 \<in> set (writes (render_encode example_gamma channel_60M mem_zero)) \<and>
   \<not> 1000000 < unat (PCM_BYTE_COUNT (word_of_int (count channel_60M)) 800000) div 4"
proof -
  have c: "count channel_60M = 60000000" by (simp add: channel_60M_def)
  have "(32000000 :: nat) \<in> {0 ..< 72 * nat (count channel_60M)}" by (simp add: c)
  then have "32000000 div 32 \<in> (\<lambda>p. p div 32) ` {0 ..< 72 * nat (count channel_60M)}"
    by (rule imageI)
  then have "1000000 \<in> set (writes (render_encode example_gamma channel_60M mem_zero))"
    by (simp only: writes_render_encode) simp
  then show ?thesis by (simp add: c PCM_BYTE_COUNT_60000000)
qed


section \<open>Zero-filling the buffer\<close>

lemma foldl_const_upd:
  "foldl (\<lambda>m i. m(w := v)) m [0..<n] = (if n = 0 then m else m(w := v))"
  by (induction n) (simp_all add: fun_eq_iff)

lemma wordcount_ge_2:
  "2 \<le> unat (PCM_BYTE_COUNT nleds freq div 4)"
proof -
  have "8 \<le> unat (PCM_BYTE_COUNT nleds freq)" by (simp only: unat_PCM_BYTE_COUNT le_add2)
  then have "8 div 4 \<le> unat (PCM_BYTE_COUNT nleds freq) div 4" by (rule div_le_mono)
  then show ?thesis by (simp add: unat_div)
qed

text \<open>
  Whatever the arguments, \<^verbatim>\<open>pcm_raw_init\<close> changes one word only, the one at index
  \<^verbatim>\<open>wordcount\<close>, which is the first word past the sized buffer.
\<close>

lemma pcm_raw_init_eq:
  "pcm_raw_init channel freq m =
     m(unat (PCM_BYTE_COUNT (word_of_int (count channel)) freq div 4) := 0)"
  using wordcount_ge_2 [of "word_of_int (count channel)" freq]
  by (simp add: pcm_raw_init_def Let_def foldl_const_upd)

lemma wordcount_channel_1:
  "unat (PCM_BYTE_COUNT (word_of_int (count channel_1)) 800000 div 4) = 8"
  by (simp add: channel_1_def PCM_BYTE_COUNT_def LED_BIT_COUNT_def LED_RESET_uS_def)

text \<open>
  C4, on the code: for one LED at 800 kHz the buffer has 8 words. On memory that holds
  \<open>0xFFFFFFFF\<close> in every word, \<^verbatim>\<open>pcm_raw_init\<close> leaves words 0 to 7 as they are and
  stores its zero into word 8.
\<close>

theorem pcm_raw_init_leaves_buffer:
  "unat (PCM_BYTE_COUNT (word_of_int (count channel_1)) 800000 div 4) = 8
   \<and> map (pcm_raw_init channel_1 800000 mem_ones) [0, 1, 2, 3, 4, 5, 6, 7] =
       [0xFFFFFFFF, 0xFFFFFFFF, 0xFFFFFFFF, 0xFFFFFFFF, 0xFFFFFFFF, 0xFFFFFFFF, 0xFFFFFFFF, 0xFFFFFFFF]
   \<and> pcm_raw_init channel_1 800000 mem_ones 8 = 0"
  by (simp add: pcm_raw_init_eq wordcount_channel_1 mem_ones_def)

section \<open>Waiting for the DMA channel\<close>

lemma read_dma_cs_fields:
  "fst (read_dma_cs h d) = dma_cs h (cs_reads d)"
  "cs_reads (snd (read_dma_cs h d)) = cs_reads d + 1"
  "pcm_raw (snd (read_dma_cs h d)) = pcm_raw d"
  "dma_cb_addr (snd (read_dma_cs h d)) = dma_cb_addr d"
  "trace (snd (read_dma_cs h d)) = trace d @ [Dma_cs_read (dma_cs h (cs_reads d))]"
  by (simp_all add: read_dma_cs_def)

lemma usleep_fields:
  "cs_reads (usleep n d) = cs_reads d"
  "pcm_raw (usleep n d) = pcm_raw d"
  "dma_cb_addr (usleep n d) = dma_cb_addr d"
  "trace (usleep n d) = trace d @ [Usleep n]"
  by (simp_all add: usleep_def)

lemma wait_loop_idle:
  assumes "dma_cs h (cs_reads d) AND RPI_DMA_CS_ACTIVE K = 0"
  shows "wait_loop K h d = Some (snd (read_dma_cs h d))"
  using assms by (subst wait_loop.simps) (simp add: read_dma_cs_def)

lemma wait_loop_error:
  assumes "dma_cs h (cs_reads d) AND RPI_DMA_CS_ACTIVE K \<noteq> 0"
    and "dma_cs h (cs_reads d + 1) AND RPI_DMA_CS_ERROR K \<noteq> 0"
  shows "wait_loop K h d = Some (snd (read_dma_cs h (snd (read_dma_cs h d))))"
  using assms by (subst wait_loop.simps) (simp add: read_dma_cs_def)

lemma wait_loop_step:
  assumes "dma_cs h (cs_reads d) AND RPI_DMA_CS_ACTIVE K \<noteq> 0"
    and "dma_cs h (cs_reads d + 1) AND RPI_DMA_CS_ERROR K = 0"
  shows "wait_loop K h d = wait_loop K h (usleep 10 (snd (read_dma_cs h (snd (read_dma_cs h d)))))"
  using assms by (subst wait_loop.simps) (simp add: read_dma_cs_def)

text \<open>
  \<open>n\<close> rounds of polling that find the channel active and free of error, followed by
  reads that all show the error bit: the loop ends, and not before read \<open>2 * n\<close>.
\<close>

lemma wait_loop_until_error:
  assumes "\<forall>i<n. dma_cs h (cs_reads d + 2 * i) AND RPI_DMA_CS_ACTIVE K \<noteq> 0
               \<and> dma_cs h (cs_reads d + 2 * i + 1) AND RPI_DMA_CS_ERROR K = 0"
    and "\<forall>k\<ge>cs_reads d + 2 * n. dma_cs h k AND RPI_DMA_CS_ERROR K \<noteq> 0"
  shows "\<exists>d'. wait_loop K h d = Some d' \<and> pcm_raw d' = pcm_raw d
              \<and> cs_reads d + 2 * n \<le> cs_reads d'"
  using assms
proof (induction n arbitrary: d)
  case 0
  show ?case
  proof (cases "dma_cs h (cs_reads d) AND RPI_DMA_CS_ACTIVE K = 0")
    case True
    then show ?thesis by (simp add: wait_loop_idle read_dma_cs_fields)
  next
    case False
    moreover have "dma_cs h (cs_reads d + 1) AND RPI_DMA_CS_ERROR K \<noteq> 0"
      using "0.prems"(2) by simp
    ultimately show ?thesis by (simp add: wait_loop_error read_dma_cs_fields)
  qed
next
  case (Suc n)
  define d2 where "d2 = usleep 10 (snd (read_dma_cs h (snd (read_dma_cs h d))))"
  have r: "cs_reads d2 = cs_reads d + 2" by (simp add: d2_def usleep_fields read_dma_cs_fields)
  have p: "pcm_raw d2 = pcm_raw d" by (simp add: d2_def usleep_fields read_dma_cs_fields)
  have a: "dma_cs h (cs_reads d) AND RPI_DMA_CS_ACTIVE K \<noteq> 0"
      and e: "dma_cs h (cs_reads d + 1) AND RPI_DMA_CS_ERROR K = 0"
    using Suc.prems(1) [rule_format, of 0] by simp_all
  have w: "wait_loop K h d = wait_loop K h d2"
    unfolding d2_def using a e by (rule wait_loop_step)
  have "\<forall>i<n. dma_cs h (cs_reads d2 + 2 * i) AND RPI_DMA_CS_ACTIVE K \<noteq> 0
               \<and> dma_cs h (cs_reads d2 + 2 * i + 1) AND RPI_DMA_CS_ERROR K = 0"
  proof (intro allI impI)
    fix i assume "i < n"
    then have "Suc i < Suc n" by simp
    from Suc.prems(1) [rule_format, OF this]
    show "dma_cs h (cs_reads d2 + 2 * i) AND RPI_DMA_CS_ACTIVE K \<noteq> 0
               \<and> dma_cs h (cs_reads d2 + 2 * i + 1) AND RPI_DMA_CS_ERROR K = 0"
      by (simp add: r add.commute add.left_commute)
  qed
  moreover have "\<forall>k\<ge>cs_reads d2 + 2 * n. dma_cs h k AND RPI_DMA_CS_ERROR K \<noteq> 0"
    using Suc.prems(2) by (simp add: r)
  ultimately obtain d' where "wait_loop K h d2 = Some d'" "pcm_raw d' = pcm_raw d2"
      "cs_reads d2 + 2 * n \<le> cs_reads d'"
    using Suc.IH [of d2] by blast
  then show ?case by (simp add: w p r)
qed

lemma ws2811_wait_idle:
  assumes "dma_cs h (cs_reads d) AND RPI_DMA_CS_ACTIVE K = 0"
    and "dma_cs h (cs_reads d + 1) AND RPI_DMA_CS_ERROR K = 0"
  shows "ws2811_wait K h d =
           Some (0, d\<lparr>cs_reads := cs_reads d + 2,
                      trace := trace d @ [Dma_cs_read (dma_cs h (cs_reads d)),
                                          Dma_cs_read (dma_cs h (cs_reads d + 1))]\<rparr>)"
  using assms by (simp add: ws2811_wait_def wait_loop_idle read_dma_cs_def)

lemma ws2811_wait_until_error:
  assumes "\<forall>i<n. dma_cs h (cs_reads d + 2 * i) AND RPI_DMA_CS_ACTIVE K \<noteq> 0
               \<and> dma_cs h (cs_reads d + 2 * i + 1) AND RPI_DMA_CS_ERROR K = 0"
    and "\<forall>k\<ge>cs_reads d + 2 * n. dma_cs h k AND RPI_DMA_CS_ERROR K \<noteq> 0"
  shows "\<exists>d'. ws2811_wait K h d = Some (- 1, d') \<and> pcm_raw d' = pcm_raw d
              \<and> last (trace d') = Stderr_DMA_Error (dma_debug h)"
proof -
  obtain d1 where w: "wait_loop K h d = Some d1" and p: "pcm_raw d1 = pcm_raw d"
      and r: "cs_reads d + 2 * n \<le> cs_reads d1"
    using wait_loop_until_error [OF assms] by blast
  have "dma_cs h (cs_reads d1) AND RPI_DMA_CS_ERROR K \<noteq> 0"
    using assms(2) r by simp
  then show ?thesis
    by (simp add: ws2811_wait_def w read_dma_cs_def p)
qed

text \<open>
  C7: when the read of \<^verbatim>\<open>dma->cs\<close> in the loop condition finds the active bit clear and
  the read after the loop finds the error bit clear, \<^verbatim>\<open>ws2811_wait\<close> returns 0 after these
  two reads, without any delay and with the device otherwise unchanged. When the error bit
  is set, either from before the call (\<open>n = 0\<close>) or after \<open>n\<close> rounds of polling an active
  channel, and stays set, \<^verbatim>\<open>ws2811_wait\<close> returns -1, the last thing it does is print the
  value of the debug register, and the transmit buffer is what it was.
\<close>

theorem ws2811_wait_idle_or_error:
  "(dma_cs h (cs_reads d) AND RPI_DMA_CS_ACTIVE K = 0
      \<and> dma_cs h (cs_reads d + 1) AND RPI_DMA_CS_ERROR K = 0
    \<longrightarrow> ws2811_wait K h d =
           Some (0, d\<lparr>cs_reads := cs_reads d + 2,
                      trace := trace d @ [Dma_cs_read (dma_cs h (cs_reads d)),
                                          Dma_cs_read (dma_cs h (cs_reads d + 1))]\<rparr>))
   \<and> ((\<forall>i<n. dma_cs h (cs_reads d + 2 * i) AND RPI_DMA_CS_ACTIVE K \<noteq> 0
               \<and> dma_cs h (cs_reads d + 2 * i + 1) AND RPI_DMA_CS_ERROR K = 0)
        \<and> (\<forall>k\<ge>cs_reads d + 2 * n. dma_cs h k AND RPI_DMA_CS_ERROR K \<noteq> 0)
    \<longrightarrow> (\<exists>d'. ws2811_wait K h d = Some (- 1, d') \<and> pcm_raw d' = pcm_raw d
              \<and> last (trace d') = Stderr_DMA_Error (dma_debug h)))"
  using ws2811_wait_idle [of h d K] ws2811_wait_until_error [of n h d K] by blast

lemma device_0_fields: "cs_reads device_0 = 0" "trace device_0 = []" "pcm_raw device_0 = mem_zero"
  by (simp_all add: device_0_def)

lemma bcm2835_fields: "RPI_DMA_CS_ACTIVE bcm2835 = 1" "RPI_DMA_CS_ERROR bcm2835 = 0x100"
  by (simp_all add: bcm2835_def)

theorem ws2811_wait_idle_or_error_witness:
  "dma_cs hw_idle 0 AND RPI_DMA_CS_ACTIVE bcm2835 = 0
   \<and> dma_cs hw_idle 1 AND RPI_DMA_CS_ERROR bcm2835 = 0
   \<and> ws2811_wait bcm2835 hw_idle device_0 =
        Some (0, device_0\<lparr>cs_reads := 2, trace := [Dma_cs_read 0, Dma_cs_read 0]\<rparr>)
   \<and> dma_cs hw_error 0 AND RPI_DMA_CS_ACTIVE bcm2835 \<noteq> 0
   \<and> dma_cs hw_error 1 AND RPI_DMA_CS_ERROR bcm2835 = 0
   \<and> dma_cs hw_error 2 AND RPI_DMA_CS_ERROR bcm2835 \<noteq> 0
   \<and> (\<exists>d'. ws2811_wait bcm2835 hw_error device_0 = Some (- 1, d') \<and> pcm_raw d' = mem_zero
              \<and> last (trace d') = Stderr_DMA_Error 5)"
proof -
  have i: "dma_cs hw_idle (cs_reads device_0) AND RPI_DMA_CS_ACTIVE bcm2835 = 0
      \<and> dma_cs hw_idle (cs_reads device_0 + 1) AND RPI_DMA_CS_ERROR bcm2835 = 0"
    by (simp add: hw_idle_def)
  have e: "(\<forall>i<1. dma_cs hw_error (cs_reads device_0 + 2 * i) AND RPI_DMA_CS_ACTIVE bcm2835 \<noteq> 0
               \<and> dma_cs hw_error (cs_reads device_0 + 2 * i + 1) AND RPI_DMA_CS_ERROR bcm2835 = 0)
        \<and> (\<forall>k\<ge>cs_reads device_0 + 2 * 1. dma_cs hw_error k AND RPI_DMA_CS_ERROR bcm2835 \<noteq> 0)"
    by (simp add: hw_error_def device_0_fields bcm2835_fields)
  have a: "ws2811_wait bcm2835 hw_idle device_0 =
        Some (0, device_0\<lparr>cs_reads := 2, trace := [Dma_cs_read 0, Dma_cs_read 0]\<rparr>)"
    using i ws2811_wait_idle_or_error [of hw_idle device_0 bcm2835 0]
    by (simp add: device_0_fields hw_idle_def)
  have b: "\<exists>d'. ws2811_wait bcm2835 hw_error device_0 = Some (- 1, d') \<and> pcm_raw d' = mem_zero
              \<and> last (trace d') = Stderr_DMA_Error 5"
    using e ws2811_wait_idle_or_error [of hw_error device_0 bcm2835 1]
    by (simp add: device_0_fields hw_error_def)
  show ?thesis
    using a b by (simp add: hw_idle_def hw_error_def bcm2835_fields)
qed

section \<open>The order of events in a render call\<close>

lemma wait_loop_trace:
  assumes "wait_loop K h d = Some d'"
  shows "\<exists>ps. trace d' = trace d @ ps \<and> wait_polls K ps
            \<and> pcm_raw d' = pcm_raw d \<and> dma_cb_addr d' = dma_cb_addr d"
proof (rule wait_loop.raw_induct
    [where P = "\<lambda>K h d d'. \<exists>ps. trace d' = trace d @ ps \<and> wait_polls K ps
            \<and> pcm_raw d' = pcm_raw d \<and> dma_cb_addr d' = dma_cb_addr d", OF _ assms])
  fix wl K h d d'
  assume IH: "\<And>K h d d'. wl K h d = Some d' \<Longrightarrow>
            \<exists>ps. trace d' = trace d @ ps \<and> wait_polls K ps
            \<and> pcm_raw d' = pcm_raw d \<and> dma_cb_addr d' = dma_cb_addr d"
    and body: "(case read_dma_cs h d of (v1, d1) \<Rightarrow>
        if v1 AND RPI_DMA_CS_ACTIVE K \<noteq> 0
        then (case read_dma_cs h d1 of (v2, d2) \<Rightarrow>
                if \<not> (v2 AND RPI_DMA_CS_ERROR K \<noteq> 0)
                then wl K h (usleep 10 d2)
                else Some d2)
        else Some d1) = Some d'"
  show "\<exists>ps. trace d' = trace d @ ps \<and> wait_polls K ps
            \<and> pcm_raw d' = pcm_raw d \<and> dma_cb_addr d' = dma_cb_addr d"
  proof (cases "dma_cs h (cs_reads d) AND RPI_DMA_CS_ACTIVE K = 0")
    case True
    then have "d' = snd (read_dma_cs h d)" using body by (simp add: read_dma_cs_def)
    then have "trace d' = trace d @ [Dma_cs_read (dma_cs h (cs_reads d))]"
        "pcm_raw d' = pcm_raw d" "dma_cb_addr d' = dma_cb_addr d"
      by (simp_all add: read_dma_cs_fields)
    moreover have "wait_polls K [Dma_cs_read (dma_cs h (cs_reads d))]" using True by simp
    ultimately show ?thesis by blast
  next
    case active: False
    show ?thesis
    proof (cases "dma_cs h (cs_reads d + 1) AND RPI_DMA_CS_ERROR K = 0")
      case True
      define d2 where "d2 = usleep 10 (snd (read_dma_cs h (snd (read_dma_cs h d))))"
      have "wl K h d2 = Some d'"
        using body active True by (simp add: read_dma_cs_def d2_def)
      then obtain ps where ps: "trace d' = trace d2 @ ps" "wait_polls K ps"
          "pcm_raw d' = pcm_raw d2" "dma_cb_addr d' = dma_cb_addr d2"
        using IH by blast
      have t: "trace d2 = trace d @ [Dma_cs_read (dma_cs h (cs_reads d)),
                                     Dma_cs_read (dma_cs h (cs_reads d + 1)), Usleep 10]"
        by (simp add: d2_def usleep_fields read_dma_cs_fields)
      have "trace d' = trace d @ ([Dma_cs_read (dma_cs h (cs_reads d)),
                                     Dma_cs_read (dma_cs h (cs_reads d + 1)), Usleep 10] @ ps)"
        by (simp add: ps(1) t)
      moreover have "wait_polls K ([Dma_cs_read (dma_cs h (cs_reads d)),
                                     Dma_cs_read (dma_cs h (cs_reads d + 1)), Usleep 10] @ ps)"
        using ps(2) active True by simp
      moreover have "pcm_raw d' = pcm_raw d" "dma_cb_addr d' = dma_cb_addr d"
        by (simp_all add: ps d2_def usleep_fields read_dma_cs_fields)
      ultimately show ?thesis by blast
    next
      case False
      then have "d' = snd (read_dma_cs h (snd (read_dma_cs h d)))"
        using body active by (simp add: read_dma_cs_def)
      then have "trace d' = trace d @ [Dma_cs_read (dma_cs h (cs_reads d)),
                                       Dma_cs_read (dma_cs h (cs_reads d + 1))]"
          "pcm_raw d' = pcm_raw d" "dma_cb_addr d' = dma_cb_addr d"
        by (simp_all add: read_dma_cs_fields)
      moreover have "wait_polls K [Dma_cs_read (dma_cs h (cs_reads d)),
                                       Dma_cs_read (dma_cs h (cs_reads d + 1))]"
        using active False by simp
      ultimately show ?thesis by blast
    qed
  qed
qed

lemma ws2811_wait_result:
  assumes "ws2811_wait K h d = Some (r, d')"
  shows "r = 0 \<or> r = - 1"
proof -
  obtain d1 where w: "wait_loop K h d = Some d1"
    using assms by (cases "wait_loop K h d") (simp_all add: ws2811_wait_def)
  show ?thesis
    using assms by (auto simp: ws2811_wait_def w read_dma_cs_def split: if_splits)
qed


lemma ws2811_wait_last:
  assumes "ws2811_wait K h d = Some (r, d')"
  shows "\<exists>ps v. trace d' = trace d @ ps @ [Dma_cs_read v]
                     @ (if r = 0 then [] else [Stderr_DMA_Error (dma_debug h)])
            \<and> wait_polls K ps \<and> (r = 0 \<longleftrightarrow> v AND RPI_DMA_CS_ERROR K = 0)
            \<and> pcm_raw d' = pcm_raw d \<and> dma_cb_addr d' = dma_cb_addr d"
proof -
  obtain d1 where w: "wait_loop K h d = Some d1"
    using assms by (cases "wait_loop K h d") (simp_all add: ws2811_wait_def)
  obtain ps where ps: "trace d1 = trace d @ ps" "wait_polls K ps"
      "pcm_raw d1 = pcm_raw d" "dma_cb_addr d1 = dma_cb_addr d"
    using wait_loop_trace [OF w] by blast
  have "trace d' = trace d @ ps @ [Dma_cs_read (dma_cs h (cs_reads d1))]
                     @ (if r = 0 then [] else [Stderr_DMA_Error (dma_debug h)])
        \<and> (r = 0 \<longleftrightarrow> dma_cs h (cs_reads d1) AND RPI_DMA_CS_ERROR K = 0)
        \<and> pcm_raw d' = pcm_raw d \<and> dma_cb_addr d' = dma_cb_addr d"
    using assms by (auto simp: ws2811_wait_def w read_dma_cs_def ps split: if_splits)
  with ps(2) show ?thesis by blast
qed

lemma ws2811_render_order:
  assumes "ws2811_render K h gm channel d = Some (r, d')"
  shows "\<exists>ps v. trace d' =
              trace d @ map Buf_write (writes (render_encode gm channel (pcm_raw d)))
                @ ps @ [Dma_cs_read v]
                @ (if r = 0 then dma_start_events K h d else [Stderr_DMA_Error (dma_debug h)])
            \<and> wait_polls K ps \<and> (r = 0 \<longleftrightarrow> v AND RPI_DMA_CS_ERROR K = 0)
            \<and> (r = 0 \<or> r = - 1)
            \<and> pcm_raw d' = buf (render_encode gm channel (pcm_raw d))"
proof -
  define e where "e = render_encode gm channel (pcm_raw d)"
  define d1 where "d1 = d\<lparr>pcm_raw := buf e, trace := trace d @ map Buf_write (writes e)\<rparr>"
  obtain r1 d2 where w: "ws2811_wait K h d1 = Some (r1, d2)"
    using assms unfolding ws2811_render_def Let_def e_def [symmetric] d1_def [symmetric]
    by (cases "ws2811_wait K h d1") auto
  have r1: "r1 = 0 \<or> r1 = - 1" using w by (rule ws2811_wait_result)
  obtain ps v where ps: "trace d2 = trace d1 @ ps @ [Dma_cs_read v]
                     @ (if r1 = 0 then [] else [Stderr_DMA_Error (dma_debug h)])"
      "wait_polls K ps" "r1 = 0 \<longleftrightarrow> v AND RPI_DMA_CS_ERROR K = 0"
      "pcm_raw d2 = pcm_raw d1" "dma_cb_addr d2 = dma_cb_addr d1"
    using ws2811_wait_last [OF w] by blast
  have res: "r = r1" "d' = (if r1 = 0 then dma_start K h d2 else d2)"
    using assms r1 unfolding ws2811_render_def Let_def e_def [symmetric] d1_def [symmetric] w
    by auto
  have ev: "dma_start_events K h d2 = dma_start_events K h d"
    by (simp add: dma_start_events_def ps(5) d1_def)
  have "trace d' = trace d @ map Buf_write (writes e) @ ps @ [Dma_cs_read v]
                   @ (if r = 0 then dma_start_events K h d else [Stderr_DMA_Error (dma_debug h)])
        \<and> pcm_raw d' = buf e"
    using r1 by (auto simp: res ps(1,4) dma_start_def ev d1_def)
  with ps(2,3) res(1) r1 show ?thesis unfolding e_def by blast
qed

lemma ws2811_wait_busy_once:
  assumes "dma_cs h (cs_reads d) AND RPI_DMA_CS_ACTIVE K \<noteq> 0"
    and "dma_cs h (cs_reads d + 1) AND RPI_DMA_CS_ERROR K = 0"
    and "dma_cs h (cs_reads d + 2) AND RPI_DMA_CS_ACTIVE K = 0"
    and "dma_cs h (cs_reads d + 3) AND RPI_DMA_CS_ERROR K = 0"
  shows "\<exists>d'. ws2811_wait K h d = Some (0, d')"
proof -
  define d2 where "d2 = usleep 10 (snd (read_dma_cs h (snd (read_dma_cs h d))))"
  have r: "cs_reads d2 = cs_reads d + 2" by (simp add: d2_def usleep_fields read_dma_cs_fields)
  have "wait_loop K h d = wait_loop K h d2"
    unfolding d2_def using assms(1,2) by (rule wait_loop_step)
  also have "\<dots> = Some (snd (read_dma_cs h d2))"
    using assms(3) by (simp add: wait_loop_idle r)
  finally show ?thesis
    using assms(4) by (simp add: ws2811_wait_def read_dma_cs_fields r read_dma_cs_def numeral_3_eq_3)
qed

lemma ws2811_render_returns:
  assumes "\<exists>d'. ws2811_wait K h (d\<lparr>pcm_raw := buf (render_encode gm channel (pcm_raw d)),
              trace := trace d @ map Buf_write (writes (render_encode gm channel (pcm_raw d)))\<rparr>)
            = Some (0, d')"
  shows "\<exists>d'. ws2811_render K h gm channel d = Some (0, d')"
  using assms by (auto simp: ws2811_render_def Let_def)

lemma render_busy_returns:
  "\<exists>d'. ws2811_render bcm2835 hw_busy example_gamma channel_1 device_0 = Some (0, d')"
  by (rule ws2811_render_returns, rule ws2811_wait_busy_once)
    (simp_all add: hw_busy_def bcm2835_def device_0_def)

lemma render_idle_returns:
  "\<exists>d'. ws2811_render bcm2835 hw_idle example_gamma channel_1 device_0 = Some (0, d')"
proof (rule ws2811_render_returns)
  define d1 where "d1 = device_0\<lparr>pcm_raw := buf (render_encode example_gamma channel_1 (pcm_raw device_0)),
              trace := trace device_0 @ map Buf_write (writes (render_encode example_gamma channel_1 (pcm_raw device_0)))\<rparr>"
  have "ws2811_wait bcm2835 hw_idle d1 = Some (0, d1\<lparr>cs_reads := cs_reads d1 + 2,
                      trace := trace d1 @ [Dma_cs_read (dma_cs hw_idle (cs_reads d1)),
                                          Dma_cs_read (dma_cs hw_idle (cs_reads d1 + 1))]\<rparr>)"
    by (rule ws2811_wait_idle) (simp_all add: hw_idle_def)
  then show "\<exists>d'. ws2811_wait bcm2835 hw_idle d1 = Some (0, d')" by blast
qed

lemma writes_channel_1_nonempty:
  "writes (render_encode example_gamma channel_1 m) \<noteq> []"
proof
  assume "writes (render_encode example_gamma channel_1 m) = []"
  then have "set (writes (render_encode example_gamma channel_1 m)) = {}" by simp
  then show False by (simp add: writes_render_encode channel_1_def)
qed

lemma no_write_before_wait_Buf_write:
  "\<not> no_write_before_wait (Buf_write w # tr)"
  by (simp add: no_write_before_wait_def)

text \<open>
  C3, amended: a render call that returns has first stored the encoded frame into the
  buffer; then it has performed a completion wait (\<open>wait_polls\<close>: it has polled
  \<^verbatim>\<open>dma->cs\<close>, sleeping between rounds, for as long as the reads showed the channel
  active and free of error, up to a read that showed the active bit clear or the error bit
  set) and has read \<^verbatim>\<open>dma->cs\<close> once more; and only then, when that last read showed no
  error, has it started the transfer and returned 0. When the last read showed the error
  bit, it has printed the debug register, started nothing and returned -1. The start is
  strictly sequenced after a completion wait; the stores into the buffer come before the
  wait, not after it.
\<close>

theorem render_waits_after_encoding:
  assumes "ws2811_render K h gm channel d = Some (r, d')"
  shows "\<exists>ps v. trace d' =
              trace d @ map Buf_write (writes (render_encode gm channel (pcm_raw d)))
                @ ps @ [Dma_cs_read v]
                @ (if r = 0 then dma_start_events K h d else [Stderr_DMA_Error (dma_debug h)])
            \<and> wait_polls K ps \<and> (r = 0 \<longleftrightarrow> v AND RPI_DMA_CS_ERROR K = 0)
            \<and> (r = 0 \<or> r = - 1)
            \<and> pcm_raw d' = buf (render_encode gm channel (pcm_raw d))"
  using assms by (rule ws2811_render_order)

theorem render_waits_after_encoding_witness:
  "\<exists>d' ps v. ws2811_render bcm2835 hw_busy example_gamma channel_1 device_0 = Some (0, d')
     \<and> trace d' = map Buf_write (writes (render_encode example_gamma channel_1 mem_zero))
                @ ps @ [Dma_cs_read v] @ dma_start_events bcm2835 hw_busy device_0
     \<and> wait_polls bcm2835 ps \<and> v AND 0x100 = 0
     \<and> pcm_raw d' = buf (render_encode example_gamma channel_1 mem_zero)"
proof -
  obtain d' where r: "ws2811_render bcm2835 hw_busy example_gamma channel_1 device_0 = Some (0, d')"
    using render_busy_returns by blast
  from render_waits_after_encoding [OF r] r show ?thesis
    by (auto simp: device_0_fields bcm2835_fields)
qed

text \<open>
  C3, as stated (the wait comes before any store into the buffer), fails: with a transfer
  in flight when render is called (the first read of \<^verbatim>\<open>dma->cs\<close> shows the active bit),
  render returns 0 and its first event is a store into the buffer, before any poll.
\<close>

theorem render_writes_before_wait_counterexample:
  "dma_cs hw_busy (cs_reads device_0) AND RPI_DMA_CS_ACTIVE bcm2835 \<noteq> 0
   \<and> map_option fst (ws2811_render bcm2835 hw_busy example_gamma channel_1 device_0) = Some 0
   \<and> map_option (no_write_before_wait \<circ> trace \<circ> snd)
        (ws2811_render bcm2835 hw_busy example_gamma channel_1 device_0) = Some False"
proof -
  obtain d' where r: "ws2811_render bcm2835 hw_busy example_gamma channel_1 device_0 = Some (0, d')"
    using render_busy_returns by blast
  obtain w ws where ws: "writes (render_encode example_gamma channel_1 mem_zero) = w # ws"
    using writes_channel_1_nonempty [of mem_zero]
    by (cases "writes (render_encode example_gamma channel_1 mem_zero)") auto
  obtain tr where "trace d' = Buf_write w # tr"
    using ws2811_render_order [OF r] by (auto simp: ws device_0_fields)
  then have n: "\<not> no_write_before_wait (trace d')"
    by (simp add: no_write_before_wait_Buf_write)
  have a: "dma_cs hw_busy (cs_reads device_0) AND RPI_DMA_CS_ACTIVE bcm2835 \<noteq> 0"
    by (simp add: hw_busy_def bcm2835_fields device_0_fields)
  show ?thesis
    using a n by (simp add: r)
qed

section \<open>Failures of initialisation\<close>

lemma byte_count_channel_1:
  "PCM_BYTE_COUNT (word_of_int (count channel_1)) 800000 = 32"
  by (simp add: channel_1_def PCM_BYTE_COUNT_def LED_BIT_COUNT_def LED_RESET_uS_def)

text \<open>The runs of \<^verbatim>\<open>ws2811_init\<close> in which exactly one collaborator fails.\<close>

lemma init_mbox_open_fails:
  "ws2811_init (env_ok\<lparr>mbox_open := - 1\<rparr>) channel_1 800000 mem_ones init_state_0 =
     Returned (- 1, init_state_0\<lparr>device := True, mbox_handle := - 1, mbox_size := 4096,
             calls := [Acquire Device_struct]\<rparr>)"
  by (simp add: ws2811_init_def env_ok_def init_state_0_def acquire_def release_def
      byte_count_channel_1)

lemma init_mem_alloc_fails:
  "ws2811_init (env_ok\<lparr>mem_alloc := 0\<rparr>) channel_1 800000 mem_ones init_state_0 =
     Returned (- 1, init_state_0\<lparr>device := True, mbox_handle := 3, mbox_size := 4096,
             calls := [Acquire Device_struct, Acquire (Mbox_handle 3)]\<rparr>)"
  by (simp add: ws2811_init_def env_ok_def init_state_0_def acquire_def release_def
      byte_count_channel_1)

lemma init_mem_lock_fails:
  "ws2811_init (env_ok\<lparr>mem_lock := - 1\<rparr>) channel_1 800000 mem_ones init_state_0 =
     Returned (- 1, init_state_0\<lparr>device := True, mbox_handle := 3, mbox_mem_ref := 7,
             mbox_bus_addr := - 1, mbox_size := 4096,
             calls := [Acquire Device_struct, Acquire (Mbox_handle 3), Acquire (Vc_mem 7),
                       Release (Vc_mem 4096)]\<rparr>)"
  by (simp add: ws2811_init_def env_ok_def init_state_0_def acquire_def release_def
      byte_count_channel_1)

lemma init_malloc_leds_fails:
  "map_outcome (calls \<circ> snd) (ws2811_init (env_ok\<lparr>malloc_leds := False\<rparr>) channel_1 800000 mem_ones init_state_0)
       = Returned [Acquire Device_struct, Acquire (Mbox_handle 3), Acquire (Vc_mem 7), Acquire (Vc_lock 7),
      Acquire Buf_map,
      Release Buf_map, Release (Vc_lock 7), Release (Vc_mem 7), Release (Mbox_handle 3),
      Release Device_struct]"
  by (simp add: ws2811_init_def env_ok_def init_state_0_def acquire_def release_def
      byte_count_channel_1 ws2811_cleanup_def err_def Let_def)

lemma init_mapmem_pcm_fails:
  "ws2811_init (env_ok\<lparr>mapmem_pcm := False\<rparr>) channel_1 800000 mem_ones init_state_0 =
     Returned (- 1, init_state_0\<lparr>mbox_handle := - 1, mbox_mem_ref := 7, mbox_bus_addr := 0xDE000000,
             mbox_size := 4096, mbox_virt_addr := True, device_dma := True,
             device_pcm_raw := pcm_raw_init channel_1 800000 mem_ones,
             calls := [Acquire Device_struct, Acquire (Mbox_handle 3), Acquire (Vc_mem 7),
                       Acquire (Vc_lock 7), Acquire Buf_map, Acquire Leds_array, Acquire Win_dma,
                       Release Leds_array, Release Buf_map, Release (Vc_lock 7),
                       Release (Vc_mem 7), Release (Mbox_handle 3), Release Device_struct]\<rparr>)"
  by (simp add: ws2811_init_def env_ok_def init_state_0_def acquire_def release_def
      byte_count_channel_1 map_registers_def ws2811_cleanup_def err_def Let_def)

lemma init_pcm_pin_alt_fails:
  "map_outcome (calls \<circ> snd) (ws2811_init (env_ok\<lparr>pcm_pin_alt := - 1\<rparr>) channel_1 800000 mem_ones init_state_0)
       = Returned [Acquire Device_struct, Acquire (Mbox_handle 3), Acquire (Vc_mem 7), Acquire (Vc_lock 7),
      Acquire Buf_map, Acquire Leds_array,
      Acquire Win_dma, Acquire Win_pcm, Acquire Win_gpio, Acquire Win_cm_pcm,
      Release Win_dma, Release Win_pcm, Release Win_cm_pcm, Release Win_gpio,
      Release Leds_array, Release Buf_map, Release (Vc_lock 7), Release (Vc_mem 7),
      Release (Mbox_handle 3), Release Device_struct]"
  by (simp add: ws2811_init_def env_ok_def init_state_0_def acquire_def release_def
      byte_count_channel_1 map_registers_def ws2811_cleanup_def err_def unmap_registers_def
      gpio_init_def channel_1_def Let_def)

text \<open>
  The exits through the label \<^verbatim>\<open>err\<close> that the code gets right: a failure to allocate the
  LED array, or an unsupported pin, leaves nothing held.
\<close>

lemma init_late_failures_release_all:
  "map_outcome (held \<circ> calls \<circ> snd) (ws2811_init (env_ok\<lparr>malloc_leds := False\<rparr>) channel_1 800000 mem_ones init_state_0)
       = Returned []
   \<and> map_outcome (held \<circ> calls \<circ> snd) (ws2811_init (env_ok\<lparr>pcm_pin_alt := - 1\<rparr>) channel_1 800000 mem_ones init_state_0)
       = Returned []"
proof -
  have c: "map_outcome (held \<circ> calls \<circ> snd) x = map_outcome held (map_outcome (calls \<circ> snd) x)"
    for x :: "(int \<times> init_state) outcome"
    by (cases x) simp_all
  show ?thesis
    unfolding c by (simp add: init_malloc_leds_fails init_pcm_pin_alt_fails held_def)
qed

text \<open>
  The two runs that end in a fault: \<^verbatim>\<open>ws2811_init\<close> when the buffer cannot be mapped,
  and \<^verbatim>\<open>ws2811_cleanup\<close> without a device structure.
\<close>

lemma init_mapmem_buf_fails:
  "ws2811_init (env_ok\<lparr>mapmem_buf := False\<rparr>) channel_1 800000 mem_ones init_state_0 = Segfault"
  by (simp add: ws2811_init_def env_ok_def init_state_0_def acquire_def release_def
      byte_count_channel_1)

lemma cleanup_without_device: "ws2811_cleanup init_state_0 = Segfault"
  by (simp add: ws2811_cleanup_def init_state_0_def)

text \<open>
  C5, on the code: when \<^verbatim>\<open>mbox_open\<close>, \<^verbatim>\<open>mem_alloc\<close> or \<^verbatim>\<open>mem_lock\<close> fails,
  \<^verbatim>\<open>ws2811_init\<close> returns -1 by a plain \<^verbatim>\<open>return\<close>: \<^verbatim>\<open>ws2811_cleanup\<close> is not called, and
  the device structure, then also the mailbox handle, then also the VideoCore memory stay
  held. The only release call on these paths, \<^verbatim>\<open>mem_free\<close> after a failed lock, is given
  the size of the allocation (4096) where the memory reference (7) belongs.
\<close>

theorem init_early_failure_leaks:
  "map_outcome fst (ws2811_init (env_ok\<lparr>mbox_open := - 1\<rparr>) channel_1 800000 mem_ones init_state_0) = Returned (- 1)
   \<and> map_outcome (held \<circ> calls \<circ> snd) (ws2811_init (env_ok\<lparr>mbox_open := - 1\<rparr>) channel_1 800000 mem_ones init_state_0)
       = Returned [Device_struct]
   \<and> map_outcome fst (ws2811_init (env_ok\<lparr>mem_alloc := 0\<rparr>) channel_1 800000 mem_ones init_state_0) = Returned (- 1)
   \<and> map_outcome (calls \<circ> snd) (ws2811_init (env_ok\<lparr>mem_alloc := 0\<rparr>) channel_1 800000 mem_ones init_state_0)
       = Returned [Acquire Device_struct, Acquire (Mbox_handle 3)]
   \<and> map_outcome (held \<circ> calls \<circ> snd) (ws2811_init (env_ok\<lparr>mem_alloc := 0\<rparr>) channel_1 800000 mem_ones init_state_0)
       = Returned [Device_struct, Mbox_handle 3]
   \<and> map_outcome fst (ws2811_init (env_ok\<lparr>mem_lock := - 1\<rparr>) channel_1 800000 mem_ones init_state_0) = Returned (- 1)
   \<and> map_outcome (calls \<circ> snd) (ws2811_init (env_ok\<lparr>mem_lock := - 1\<rparr>) channel_1 800000 mem_ones init_state_0)
       = Returned [Acquire Device_struct, Acquire (Mbox_handle 3), Acquire (Vc_mem 7), Release (Vc_mem 4096)]
   \<and> map_outcome (held \<circ> calls \<circ> snd) (ws2811_init (env_ok\<lparr>mem_lock := - 1\<rparr>) channel_1 800000 mem_ones init_state_0)
       = Returned [Device_struct, Mbox_handle 3, Vc_mem 7]"
  by (simp add: init_mbox_open_fails init_mem_alloc_fails init_mem_lock_fails held_def)

text \<open>
  C9, on the code: when the second window (the PCM block) cannot be mapped,
  \<^verbatim>\<open>map_registers\<close> returns -1 at once and \<^verbatim>\<open>ws2811_init\<close> goes to \<^verbatim>\<open>err\<close> without
  calling \<^verbatim>\<open>unmap_registers\<close>; \<^verbatim>\<open>ws2811_cleanup\<close> releases everything else, and the
  window of the DMA engine, mapped just before, stays mapped when -1 is returned.
\<close>

theorem init_map_failure_leaks:
  "map_outcome fst (ws2811_init (env_ok\<lparr>mapmem_pcm := False\<rparr>) channel_1 800000 mem_ones init_state_0) = Returned (- 1)
   \<and> map_outcome (calls \<circ> snd) (ws2811_init (env_ok\<lparr>mapmem_pcm := False\<rparr>) channel_1 800000 mem_ones init_state_0)
       = Returned [Acquire Device_struct, Acquire (Mbox_handle 3), Acquire (Vc_mem 7), Acquire (Vc_lock 7),
          Acquire Buf_map, Acquire Leds_array, Acquire Win_dma,
          Release Leds_array, Release Buf_map, Release (Vc_lock 7), Release (Vc_mem 7),
          Release (Mbox_handle 3), Release Device_struct]
   \<and> map_outcome (held \<circ> calls \<circ> snd) (ws2811_init (env_ok\<lparr>mapmem_pcm := False\<rparr>) channel_1 800000 mem_ones init_state_0)
       = Returned [Win_dma]"
  by (simp add: init_mapmem_pcm_fails held_def)

end
